theory Spec2Isabelle
  imports Main "HOL-Library.Sublist"
begin

section \<open>Values, objects and the store\<close>

text \<open>
  JavaScript values. Objects, arrays and functions live in a store and are denoted by their
  address (\<open>Ref\<close>), so that \<open>===\<close> on them is identity of addresses. Numbers are
  abstracted to integers plus the one value \<open>NaN\<close>, which is the only value that is not
  \<open>===\<close> to itself.
\<close>

datatype jsval = Undefined | Null | Bool bool | Num int | NaN | Str string | Ref nat

text \<open>
  A declared type: a constructor function, of which the code reads only \<open>.name\<close>, or an
  array literal such as \<open>[String]\<close> (for which \<open>Array.isArray\<close> holds and \<open>.name\<close> is
  undefined).
\<close>

datatype typetag = TNamed string | TArray "typetag list"

text \<open>
  What an address holds: a plain object, a plain sequence, a function (with its source
  text), or an Ordered List Container made by \<open>new List(items, type, parent)\<close>. Every
  object also has named fields.
\<close>

datatype kind = KPlain | KArray "jsval list" | KFunc string | KList jsval typetag

record obj =
  kind :: kind
  members :: "(string \<times> jsval) list"

type_synonym heap = "obj list"

definition deref :: "heap \<Rightarrow> nat \<Rightarrow> obj option" where
  "deref h a = (if a < length h then Some (h ! a) else None)"

definition alloc :: "heap \<Rightarrow> obj \<Rightarrow> nat \<times> heap" where
  "alloc h ob = (length h, h @ [ob])"

text \<open>Object literals as ordered key/value lists; reading a missing key gives undefined.\<close>

fun lookup :: "(string \<times> jsval) list \<Rightarrow> string \<Rightarrow> jsval" where
  "lookup [] k = Undefined"
| "lookup ((k', v) # xs) k = (if k' = k then v else lookup xs k)"

fun has_key :: "(string \<times> 'a) list \<Rightarrow> string \<Rightarrow> bool" where
  "has_key [] k = False"
| "has_key ((k', v) # xs) k = (k' = k \<or> has_key xs k)"

fun put :: "(string \<times> jsval) list \<Rightarrow> string \<Rightarrow> jsval \<Rightarrow> (string \<times> jsval) list" where
  "put [] k v = [(k, v)]"
| "put ((k', v') # xs) k v = (if k' = k then (k, v) # xs else (k', v') # put xs k v)"

fun find_key :: "(string \<times> 'a) list \<Rightarrow> string \<Rightarrow> 'a option" where
  "find_key [] k = None"
| "find_key ((k', v) # xs) k = (if k' = k then Some v else find_key xs k)"

datatype jstype = TyUndefined | TyObject | TyBoolean | TyNumber | TyString | TyFunction

text \<open>\<open>typeof v\<close>.\<close>

definition typeof :: "heap \<Rightarrow> jsval \<Rightarrow> jstype" where
  "typeof h v = (case v of
      Undefined \<Rightarrow> TyUndefined
    | Null \<Rightarrow> TyObject
    | Bool b \<Rightarrow> TyBoolean
    | Num n \<Rightarrow> TyNumber
    | NaN \<Rightarrow> TyNumber
    | Str s \<Rightarrow> TyString
    | Ref a \<Rightarrow> (case deref h a of
          Some ob \<Rightarrow> (case kind ob of KFunc src \<Rightarrow> TyFunction | _ \<Rightarrow> TyObject)
        | None \<Rightarrow> TyObject))"

text \<open>Truthiness, as tested by \<open>if (v)\<close> and \<open>a || b\<close>.\<close>

definition truthy :: "jsval \<Rightarrow> bool" where
  "truthy v = (case v of
      Undefined \<Rightarrow> False
    | Null \<Rightarrow> False
    | Bool b \<Rightarrow> b
    | Num n \<Rightarrow> n \<noteq> 0
    | NaN \<Rightarrow> False
    | Str s \<Rightarrow> s \<noteq> []
    | Ref a \<Rightarrow> True)"

definition js_or :: "jsval \<Rightarrow> jsval \<Rightarrow> jsval" where
  "js_or a b = (if truthy a then a else b)"

text \<open>\<open>a === b\<close> and \<open>a !== b\<close>.\<close>

definition strict_eq :: "jsval \<Rightarrow> jsval \<Rightarrow> bool" where
  "strict_eq a b = (a = b \<and> a \<noteq> NaN)"


datatype error = UnknownPropertyError string | MissingTypeError string | TypeError

text \<open>
  \<open>v[k]\<close> for a named field \<open>k\<close>: a TypeError on undefined and null, the field of an
  object, undefined otherwise (members inherited from a prototype, and the indices and
  length of sequences and strings, are not represented).
\<close>

definition get_member :: "heap \<Rightarrow> jsval \<Rightarrow> string \<Rightarrow> error + jsval" where
  "get_member h v k = (case v of
      Undefined \<Rightarrow> Inl TypeError
    | Null \<Rightarrow> Inl TypeError
    | Ref a \<Rightarrow> (case deref h a of Some ob \<Rightarrow> Inr (lookup (members ob) k) | None \<Rightarrow> Inr Undefined)
    | _ \<Rightarrow> Inr Undefined)"

text \<open>
  \<open>v[k] = x\<close> where \<open>v\<close> is known to be truthy: stores the field in an object, and does
  nothing on a primitive.
\<close>

definition set_member :: "heap \<Rightarrow> jsval \<Rightarrow> string \<Rightarrow> jsval \<Rightarrow> heap" where
  "set_member h v k x = (case v of
      Ref a \<Rightarrow> (if a < length h then h[a := (h ! a)\<lparr>members := put (members (h ! a)) k x\<rparr>] else h)
    | _ \<Rightarrow> h)"

definition is_List :: "heap \<Rightarrow> jsval \<Rightarrow> bool" where
  "is_List h v = (case v of
      Ref a \<Rightarrow> (case deref h a of
          Some ob \<Rightarrow> (case kind ob of KList items t \<Rightarrow> True | _ \<Rightarrow> False)
        | None \<Rightarrow> False)
    | _ \<Rightarrow> False)"

text \<open>Decimal printing of a number, for \<open>v + ''\<close> and \<open>String(v)\<close>.\<close>

definition digit_char :: "nat \<Rightarrow> char" where
  "digit_char d = (''0123456789'' ! (d mod 10))"

fun show_nat :: "nat \<Rightarrow> string" where
  "show_nat n = (if n < 10 then [digit_char n] else show_nat (n div 10) @ [digit_char (n mod 10)])"

declare show_nat.simps [simp del]

definition show_int :: "int \<Rightarrow> string" where
  "show_int i = (if i < 0 then CHR ''-'' # show_nat (nat (- i)) else show_nat (nat i))"

text \<open>
  \<open>String(v)\<close> (and \<open>v + ''\<close>) on the values the coercion pass applies it to: values that
  are truthy and whose \<open>typeof\<close> is not \<open>'object'\<close>.
\<close>

definition to_string :: "heap \<Rightarrow> jsval \<Rightarrow> string" where
  "to_string h v = (case v of
      Undefined \<Rightarrow> ''undefined''
    | Null \<Rightarrow> ''null''
    | Bool b \<Rightarrow> (if b then ''true'' else ''false'')
    | Num n \<Rightarrow> show_int n
    | NaN \<Rightarrow> ''NaN''
    | Str s \<Rightarrow> s
    | Ref a \<Rightarrow> (case deref h a of
          Some ob \<Rightarrow> (case kind ob of KFunc src \<Rightarrow> src | _ \<Rightarrow> ''[object Object]'')
        | None \<Rightarrow> ''[object Object]''))"


section \<open>The model class and its instances\<close>

text \<open>
  The default of a property descriptor: a literal (\<open>Literal Undefined\<close> when none is
  declared), or a function, which \<open>getDefault\<close> calls without arguments. A call reads the
  store and returns its value together with the objects it creates, which are appended
  to the store.
\<close>

datatype dflt = Literal jsval | Factory "heap \<Rightarrow> jsval \<times> obj list"

record descriptor =
  ptype :: "typetag option"
  pdefault :: dflt

record relation =
  keyFrom :: string
  keyTo :: string

text \<open>
  The constructor \<open>ctor\<close>, as far as the instance code reads it: \<open>definition.build()\<close>
  and \<open>definition.properties\<close> (the registry, in declaration order, which is the order of
  \<open>forEachProperty\<close>), \<open>relations\<close> and \<open>definition.settings.strict\<close>. Both key/value
  lists hold the own keys. In \<open>_initProperties\<close> the tests \<open>i in properties\<close> and
  \<open>i in ctor.relations\<close> are taken as tests for an own key: input keys that name a member
  inherited from \<open>Object.prototype\<close> are not represented there.

  Three parameters stand for code that \<open>lib/model.js\<close> calls and does not contain.
  \<open>setter p v h\<close> is the value that the setter of the registered property \<open>p\<close> stores
  when \<open>v\<close> is assigned in the store \<open>h\<close>, with the objects it creates.
  \<open>JSON_parse s n\<close> is the result of \<open>JSON.parse(s)\<close> when the next free address is
  \<open>n\<close>: \<open>None\<close> when it throws, else the value and the objects it creates.
  \<open>call_toObject h v flag\<close> is \<open>v.toObject(flag)\<close> for an object \<open>v\<close> (a container of
  \<open>lib/list.js\<close>, or any object with such a method): \<open>None\<close> when \<open>v\<close> has no such
  member, else the result and the objects it creates.
\<close>

record ctor =
  properties :: "(string \<times> descriptor) list"
  relations :: "(string \<times> relation) list"
  settings_strict :: jsval
  setter :: "string \<Rightarrow> jsval \<Rightarrow> heap \<Rightarrow> jsval \<times> obj list"
  JSON_parse :: "string \<Rightarrow> nat \<Rightarrow> (jsval \<times> obj list) option"
  call_toObject :: "heap \<Rightarrow> jsval \<Rightarrow> bool \<Rightarrow> (jsval \<times> obj list) option"

text \<open>
  An instance: its enumerable own properties, and the hidden slots \<open>__data\<close>,
  \<open>__dataWas\<close>, \<open>__cachedRelations\<close> (a reference, since the input's object may be
  adopted), \<open>__dataSource\<close> and \<open>__strict\<close>.
\<close>

record model_instance =
  own :: "(string \<times> jsval) list"
  data :: "(string \<times> jsval) list"
  dataWas :: "(string \<times> jsval) list"
  cachedRelations :: jsval
  dataSource :: jsval
  strictMode :: jsval

record options =
  applySetters :: "jsval option"
  opt_strict :: jsval
  opt_dataSource :: jsval

definition BASE_TYPES :: "string list" where
  "BASE_TYPES = [''String'', ''Boolean'', ''Number'', ''Date'', ''Text'']"

text \<open>\<open>type.name\<close>.\<close>

fun type_name :: "typetag \<Rightarrow> jsval" where
  "type_name (TNamed n) = Str n"
| "type_name (TArray ts) = Undefined"

text \<open>\<open>BASE_TYPES.indexOf(type.name) === -1\<close>.\<close>

fun not_base_type :: "typetag \<Rightarrow> bool" where
  "not_base_type (TNamed n) = (n \<notin> set BASE_TYPES)"
| "not_base_type (TArray ts) = True"

text \<open>\<open>type.name === 'Array' || Array.isArray(type)\<close>.\<close>

fun is_array_type :: "typetag \<Rightarrow> bool" where
  "is_array_type (TNamed n) = (n = ''Array'')"
| "is_array_type (TArray ts) = True"

text \<open>\<open>clone\<close> returns its argument: the cloning code is commented out.\<close>

definition clone :: "jsval \<Rightarrow> jsval" where
  "clone v = v"

text \<open>
  Modelled from the spec: the accessor pair of a registered property is installed by the
  model builder, which is not part of \<open>lib/model.js\<close>; its setter stores the (possibly
  normalised) value in \<open>__data\<close>, since "setters may perform additional per-type
  normalization" and an undeclared property has "no setter ... to add it to \<open>__data\<close>".
  So \<open>self[name] = v\<close> overwrites an own property of that name; else runs the setter of
  a registered property; else is a plain assignment, which writes the hidden slot of that
  name or makes an own property (a name inherited from the prototype, such as a relation
  name, is treated as any other unregistered name). The slots \<open>__data\<close> and \<open>__dataWas\<close>
  cannot be replaced in this model: inputs with keys of these names are excluded by
  \<open>wf_raw\<close> below.
\<close>

definition assign_prop :: "ctor \<Rightarrow> string \<Rightarrow> jsval \<Rightarrow> heap \<times> model_instance \<Rightarrow> heap \<times> model_instance" where
  "assign_prop c name v st = (case st of (h, self) \<Rightarrow>
     if has_key (own self) name then (h, self\<lparr>own := put (own self) name v\<rparr>)
     else if has_key (properties c) name then
       (case setter c name v h of (v', objs) \<Rightarrow> (h @ objs, self\<lparr>data := put (data self) name v'\<rparr>))
     else if name = ''__cachedRelations'' then (h, self\<lparr>cachedRelations := v\<rparr>)
     else if name = ''__strict'' then (h, self\<lparr>strictMode := v\<rparr>)
     else if name = ''__dataSource'' then (h, self\<lparr>dataSource := v\<rparr>)
     else (h, self\<lparr>own := put (own self) name v\<rparr>))"

text \<open>
  Modelled from the spec: the getter of a registered property, installed with its setter,
  returns the entry of \<open>__data\<close>. So \<open>self[name]\<close> is an own property, else what the
  getter of a registered property returns, else undefined.
\<close>

definition read_prop :: "ctor \<Rightarrow> model_instance \<Rightarrow> string \<Rightarrow> jsval" where
  "read_prop c self name =
     (if has_key (own self) name then lookup (own self) name
      else if has_key (properties c) name then lookup (data self) name
      else Undefined)"

text \<open>
  A well-formed input object: its keys are distinct, and none of them names the hidden
  data stores.
\<close>

definition wf_raw :: "(string \<times> jsval) list \<Rightarrow> bool" where
  "wf_raw raw = (distinct (map fst raw) \<and> \<not> has_key raw ''__data'' \<and> \<not> has_key raw ''__dataWas'')"


section \<open>The initialization pipeline\<close>

text \<open>
  The body of the first loop of \<open>_initProperties\<close>, for the key \<open>i\<close> with \<open>data[i] = v\<close>;
  \<open>strict\<close> is the local variable of that name.
\<close>

definition init_key ::
  "ctor \<Rightarrow> jsval \<Rightarrow> string \<times> jsval \<Rightarrow> heap \<times> model_instance \<Rightarrow> error + heap \<times> model_instance" where
  "init_key c strict kv st = (case kv of (i, v) \<Rightarrow> case st of (h, self) \<Rightarrow>
     if has_key (properties c) i \<and> typeof h v \<noteq> TyFunction then
       Inr (h, self\<lparr>data := put (data self) i (clone v), dataWas := put (dataWas self) i (clone v)\<rparr>)
     else (case find_key (relations c) i of
         Some r \<Rightarrow> (case get_member h v (keyTo r) of
             Inl e \<Rightarrow> Inl e
           | Inr x \<Rightarrow> Inr (set_member h (cachedRelations self) i v,
                          self\<lparr>data := put (data self) (keyFrom r) x, dataWas := put (dataWas self) i x\<rparr>))
       | None \<Rightarrow>
           if strict_eq strict (Bool False) then
             Inr (h, self\<lparr>data := put (data self) i (clone v), dataWas := put (dataWas self) i (clone v)\<rparr>)
           else if strict_eq strict (Str ''throw'') then Inl (UnknownPropertyError i)
           else Inr (h, self)))"

fun init_keys ::
  "ctor \<Rightarrow> jsval \<Rightarrow> (string \<times> jsval) list \<Rightarrow> heap \<times> model_instance \<Rightarrow> error + heap \<times> model_instance" where
  "init_keys c strict [] st = Inr st"
| "init_keys c strict (kv # raw) st =
     (case init_key c strict kv st of Inl e \<Rightarrow> Inl e | Inr st' \<Rightarrow> init_keys c strict raw st')"

text \<open>The loop run when \<open>applySetters === true\<close>.\<close>

definition apply_setter :: "ctor \<Rightarrow> string \<times> jsval \<Rightarrow> heap \<times> model_instance \<Rightarrow> heap \<times> model_instance" where
  "apply_setter c kv st = (case kv of (propertyName, v) \<Rightarrow>
     if typeof (fst st) v \<noteq> TyFunction \<and>
        (has_key (properties c) propertyName \<or> has_key (relations c) propertyName)
     then assign_prop c propertyName (js_or (lookup (data (snd st)) propertyName) v) st
     else st)"

fun apply_setters :: "ctor \<Rightarrow> (string \<times> jsval) list \<Rightarrow> heap \<times> model_instance \<Rightarrow> heap \<times> model_instance" where
  "apply_setters c [] st = st"
| "apply_setters c (kv # raw) st = apply_setters c raw (apply_setter c kv st)"

text \<open>The loop run when \<open>strict === false\<close>: unknown keys become properties of the object.\<close>

definition set_unknown :: "ctor \<Rightarrow> string \<times> jsval \<Rightarrow> heap \<times> model_instance \<Rightarrow> heap \<times> model_instance" where
  "set_unknown c kv st = (case kv of (propertyName, v) \<Rightarrow>
     if typeof (fst st) v \<noteq> TyFunction \<and> \<not> has_key (properties c) propertyName
     then assign_prop c propertyName (js_or (lookup (data (snd st)) propertyName) v) st
     else st)"

fun set_unknowns :: "ctor \<Rightarrow> (string \<times> jsval) list \<Rightarrow> heap \<times> model_instance \<Rightarrow> heap \<times> model_instance" where
  "set_unknowns c [] st = st"
| "set_unknowns c (kv # raw) st = set_unknowns c raw (set_unknown c kv st)"

text \<open>\<open>getDefault(propertyName)\<close>, for a registered property.\<close>

definition getDefault :: "ctor \<Rightarrow> string \<Rightarrow> heap \<Rightarrow> jsval \<times> obj list" where
  "getDefault c propertyName h = (case find_key (properties c) propertyName of
      None \<Rightarrow> (Undefined, [])
    | Some d \<Rightarrow> (case pdefault d of Literal v \<Rightarrow> (v, []) | Factory f \<Rightarrow> f h))"

text \<open>The first \<open>forEachProperty\<close> callback: defaults and the baseline.\<close>

definition fill_default :: "ctor \<Rightarrow> string \<Rightarrow> heap \<times> model_instance \<Rightarrow> heap \<times> model_instance" where
  "fill_default c propertyName st = (case st of (h, self) \<Rightarrow>
     if strict_eq Undefined (lookup (data self) propertyName) then
       (case getDefault c propertyName h of (v, objs) \<Rightarrow>
          (h @ objs, self\<lparr>data := put (data self) propertyName v,
                          dataWas := put (dataWas self) propertyName v\<rparr>))
     else (h, self\<lparr>dataWas := put (dataWas self) propertyName (lookup (data self) propertyName)\<rparr>))"

fun fill_defaults :: "ctor \<Rightarrow> string list \<Rightarrow> heap \<times> model_instance \<Rightarrow> heap \<times> model_instance" where
  "fill_defaults c [] st = st"
| "fill_defaults c (p # ps) st = fill_defaults c ps (fill_default c p st)"

text \<open>
  The \<open>try\<close>/\<open>catch\<close> of the coercion pass: \<open>JSON.parse(v + '')\<close>, or \<open>String(v)\<close> when
  parsing throws.
\<close>

definition parse_value :: "ctor \<Rightarrow> string \<Rightarrow> heap \<times> model_instance \<Rightarrow> heap \<times> model_instance" where
  "parse_value c propertyName st = (case st of (h, self) \<Rightarrow>
     let v = lookup (data self) propertyName in
     if typeof h v \<noteq> TyObject \<and> truthy v then
       (case JSON_parse c (to_string h v) (length h) of
          Some (x, objs) \<Rightarrow> (h @ objs, self\<lparr>data := put (data self) propertyName x\<rparr>)
        | None \<Rightarrow> (h, self\<lparr>data := put (data self) propertyName (Str (to_string h v))\<rparr>))
     else st)"

text \<open>
  Modelled from the spec: \<open>new List(items, type, self)\<close> is defined in \<open>lib/list.js\<close>;
  it makes a new container object that wraps the items and remembers the element type
  (the owning instance, its third argument, is not an object of the store here).
\<close>

definition wrap_list :: "string \<Rightarrow> typetag \<Rightarrow> heap \<times> model_instance \<Rightarrow> heap \<times> model_instance" where
  "wrap_list propertyName t st = (case st of (h, self) \<Rightarrow>
     if \<not> is_List h (lookup (data self) propertyName) then
       (case alloc h \<lparr>kind = KList (lookup (data self) propertyName) t, members = []\<rparr> of
          (a, h') \<Rightarrow> (h', self\<lparr>data := put (data self) propertyName (Ref a)\<rparr>))
     else st)"

text \<open>
  The second \<open>forEachProperty\<close> callback: the coercion pass. Reading \<open>type.name\<close> of a
  property that declares no type is a TypeError.
\<close>

definition coerce_property :: "ctor \<Rightarrow> string \<Rightarrow> heap \<times> model_instance \<Rightarrow> error + heap \<times> model_instance" where
  "coerce_property c propertyName st = (case find_key (properties c) propertyName of
      None \<Rightarrow> Inl TypeError
    | Some d \<Rightarrow> (case ptype d of
          None \<Rightarrow> Inl TypeError
        | Some t \<Rightarrow>
            if not_base_type t then
              (let st1 = parse_value c propertyName st in
               if is_array_type t then Inr (wrap_list propertyName t st1) else Inr st1)
            else Inr st))"

fun coerce_properties :: "ctor \<Rightarrow> string list \<Rightarrow> heap \<times> model_instance \<Rightarrow> error + heap \<times> model_instance" where
  "coerce_properties c [] st = Inr st"
| "coerce_properties c (p # ps) st =
     (case coerce_property c p st of Inl e \<Rightarrow> Inl e | Inr st' \<Rightarrow> coerce_properties c ps st')"

text \<open>
  \<open>_initProperties(data, options)\<close> on a new object, in the store \<open>h\<close>. The input \<open>data\<close>
  is given by its enumerable keys in enumeration order. First the local \<open>strict\<close>: the
  option, or the setting of the definition when the option is undefined.
\<close>

definition resolve_strict :: "ctor \<Rightarrow> options \<Rightarrow> jsval" where
  "resolve_strict c opts =
     (if strict_eq (opt_strict opts) Undefined then settings_strict c else opt_strict opts)"

text \<open>
  The hidden slots are defined, with a new empty object for \<open>__cachedRelations\<close>, which
  is replaced by \<open>data.__cachedRelations\<close> if that is truthy.
\<close>

definition new_instance ::
  "ctor \<Rightarrow> heap \<Rightarrow> (string \<times> jsval) list \<Rightarrow> options \<Rightarrow> heap \<times> model_instance" where
  "new_instance c h raw opts =
     (case alloc h \<lparr>kind = KPlain, members = []\<rparr> of (cr, h1) \<Rightarrow>
        (h1, \<lparr>own = [], data = [], dataWas = [],
              cachedRelations = (if truthy (lookup raw ''__cachedRelations'')
                                 then lookup raw ''__cachedRelations'' else Ref cr),
              dataSource = opt_dataSource opts, strictMode = resolve_strict c opts\<rparr>))"

definition setters_phase ::
  "ctor \<Rightarrow> (string \<times> jsval) list \<Rightarrow> options \<Rightarrow> heap \<times> model_instance \<Rightarrow> heap \<times> model_instance" where
  "setters_phase c raw opts st =
     (if strict_eq (case applySetters opts of None \<Rightarrow> Undefined | Some b \<Rightarrow> b) (Bool True)
      then apply_setters c raw st else st)"

definition unknowns_phase ::
  "ctor \<Rightarrow> (string \<times> jsval) list \<Rightarrow> options \<Rightarrow> heap \<times> model_instance \<Rightarrow> heap \<times> model_instance" where
  "unknowns_phase c raw opts st =
     (if strict_eq (resolve_strict c opts) (Bool False) then set_unknowns c raw st else st)"

text \<open>
  The whole method. The final \<open>trigger('initialize')\<close> is a notification without effect
  on the instance.
\<close>

definition initProperties ::
  "ctor \<Rightarrow> heap \<Rightarrow> (string \<times> jsval) list \<Rightarrow> options \<Rightarrow> error + heap \<times> model_instance" where
  "initProperties c h raw opts =
     (case init_keys c (resolve_strict c opts) raw (new_instance c h raw opts) of
        Inl e \<Rightarrow> Inl e
      | Inr st1 \<Rightarrow>
          coerce_properties c (map fst (properties c))
            (fill_defaults c (map fst (properties c))
               (unknowns_phase c raw opts (setters_phase c raw opts st1))))"

text \<open>The constructor: \<open>applySetters\<close> defaults to true when the option is not given.\<close>

definition ModelBaseClass ::
  "ctor \<Rightarrow> heap \<Rightarrow> (string \<times> jsval) list \<Rightarrow> options \<Rightarrow> error + heap \<times> model_instance" where
  "ModelBaseClass c h raw opts =
     initProperties c h raw
       (if applySetters opts = None then opts\<lparr>applySetters := Some (Bool True)\<rparr> else opts)"


section \<open>Type query, change tracking and serialization\<close>

text \<open>
  The names that every plain object inherits from \<open>Object.prototype\<close>. A bracket read
  \<open>obj[name]\<close> with such a name, on an object without an own key of that name, gives
  the inherited member: a function, or for \<open>__proto__\<close> the prototype object. Each of
  them is truthy and has no member \<open>type\<close>.
\<close>

definition Object_prototype_names :: "string list" where
  "Object_prototype_names =
     [''constructor'', ''toString'', ''toLocaleString'', ''valueOf'', ''hasOwnProperty'',
      ''isPrototypeOf'', ''propertyIsEnumerable'', ''__defineGetter__'', ''__defineSetter__'',
      ''__lookupGetter__'', ''__lookupSetter__'', ''__proto__'']"

text \<open>
  \<open>ModelBaseClass.getPropertyType(propName)\<close>. The read
  \<open>this.definition.properties[propName]\<close> has no own-property guard: for a name that is
  not an own key of the registry but is inherited from \<open>Object.prototype\<close>, \<open>prop\<close> is
  the inherited member, \<open>!prop\<close> is false and \<open>!prop.type\<close> is true, so the error is
  thrown.
\<close>

definition getPropertyType :: "ctor \<Rightarrow> string \<Rightarrow> error + jsval" where
  "getPropertyType c propName = (case find_key (properties c) propName of
      None \<Rightarrow> (if propName \<in> set Object_prototype_names
                then Inl (MissingTypeError propName) else Inr Null)
    | Some prop \<Rightarrow> (case ptype prop of
          None \<Rightarrow> Inl (MissingTypeError propName)
        | Some t \<Rightarrow> Inr (type_name t)))"


text \<open>
  The value that \<open>toObject\<close> stores for \<open>val\<close>:
  \<open>val.toObject(flag)\<close> if \<open>val !== undefined && val !== null && val.toObject\<close>, else
  \<open>val\<close>. Primitive values have no member \<open>toObject\<close>.
\<close>

definition convert :: "ctor \<Rightarrow> heap \<Rightarrow> jsval \<Rightarrow> bool \<Rightarrow> jsval \<times> obj list" where
  "convert c h val flag = (case val of
      Ref a \<Rightarrow> (case call_toObject c h val flag of Some r \<Rightarrow> r | None \<Rightarrow> (val, []))
    | _ \<Rightarrow> (val, []))"

text \<open>The \<open>forEachProperty\<close> callback of \<open>toObject\<close>; \<open>out\<close> is the local \<open>data\<close>.\<close>

definition schema_prop ::
  "ctor \<Rightarrow> model_instance \<Rightarrow> bool \<Rightarrow> string \<Rightarrow> heap \<times> (string \<times> jsval) list
     \<Rightarrow> error + heap \<times> (string \<times> jsval) list" where
  "schema_prop c self schemaLess propertyName st = (case st of (h, out) \<Rightarrow>
     if is_List h (read_prop c self propertyName) then
       (case call_toObject c h (read_prop c self propertyName) (\<not> schemaLess) of
          None \<Rightarrow> Inl TypeError
        | Some (r, objs) \<Rightarrow> Inr (h @ objs, put out propertyName r))
     else if has_key (data self) propertyName then
       (case convert c h (read_prop c self propertyName) (\<not> schemaLess) of
          (r, objs) \<Rightarrow> Inr (h @ objs, put out propertyName r))
     else Inr (h, put out propertyName Null))"

fun schema_props ::
  "ctor \<Rightarrow> model_instance \<Rightarrow> bool \<Rightarrow> string list \<Rightarrow> heap \<times> (string \<times> jsval) list
     \<Rightarrow> error + heap \<times> (string \<times> jsval) list" where
  "schema_props c self schemaLess [] st = Inr st"
| "schema_props c self schemaLess (p # ps) st =
     (case schema_prop c self schemaLess p st of
        Inl e \<Rightarrow> Inl e
      | Inr st' \<Rightarrow> schema_props c self schemaLess ps st')"

text \<open>
  The body of the loop over the own properties of the instance (\<open>schemaLess\<close> is true
  there, so the nested flag is false).
\<close>

definition own_prop ::
  "ctor \<Rightarrow> model_instance \<Rightarrow> string \<Rightarrow> heap \<times> (string \<times> jsval) list
     \<Rightarrow> heap \<times> (string \<times> jsval) list" where
  "own_prop c self propertyName st = (case st of (h, out) \<Rightarrow>
     if \<not> has_key out propertyName then
       (case convert c h (read_prop c self propertyName) False of
          (r, objs) \<Rightarrow> (h @ objs, put out propertyName r))
     else st)"

fun own_props ::
  "ctor \<Rightarrow> model_instance \<Rightarrow> string list \<Rightarrow> heap \<times> (string \<times> jsval) list
     \<Rightarrow> heap \<times> (string \<times> jsval) list" where
  "own_props c self [] st = st"
| "own_props c self (p # ps) st = own_props c self ps (own_prop c self p st)"

text \<open>The body of the loop over the keys of \<open>__data\<close>.\<close>

definition data_prop ::
  "ctor \<Rightarrow> model_instance \<Rightarrow> string \<Rightarrow> heap \<times> (string \<times> jsval) list
     \<Rightarrow> heap \<times> (string \<times> jsval) list" where
  "data_prop c self propertyName st = (case st of (h, out) \<Rightarrow>
     if \<not> has_key out propertyName then
       (case convert c h (if has_key (own self) propertyName then read_prop c self propertyName
                          else lookup (data self) propertyName) False of
          (r, objs) \<Rightarrow> (h @ objs, put out propertyName r))
     else st)"

fun data_props ::
  "ctor \<Rightarrow> model_instance \<Rightarrow> string list \<Rightarrow> heap \<times> (string \<times> jsval) list
     \<Rightarrow> heap \<times> (string \<times> jsval) list" where
  "data_props c self [] st = st"
| "data_props c self (p # ps) st = data_props c self ps (data_prop c self p st)"

text \<open>
  \<open>toObject(onlySchema)\<close>: the result is the returned object, given by its keys in
  order, and the store with the objects made by nested conversions.
\<close>

definition toObject ::
  "ctor \<Rightarrow> heap \<times> model_instance \<Rightarrow> jsval \<Rightarrow> error + heap \<times> (string \<times> jsval) list" where
  "toObject c st onlySchema = (case st of (h, self) \<Rightarrow>
     let onlySchema' = (if strict_eq onlySchema Undefined then Bool True else onlySchema);
         schemaLess = (strict_eq (strictMode self) (Bool False) \<or> \<not> truthy onlySchema')
     in case schema_props c self schemaLess (map fst (properties c)) (h, []) of
          Inl e \<Rightarrow> Inl e
        | Inr st1 \<Rightarrow>
            if schemaLess then
              Inr (data_props c self (map fst (data self))
                     (own_props c self (map fst (own self)) st1))
            else Inr st1)"

definition toJSON :: "ctor \<Rightarrow> heap \<times> model_instance \<Rightarrow> error + heap \<times> (string \<times> jsval) list" where
  "toJSON c st = toObject c st (Bool False)"

text \<open>\<open>fromObject(obj)\<close>, for \<open>obj\<close> given by its enumerable keys in order.\<close>

fun fromObject :: "ctor \<Rightarrow> (string \<times> jsval) list \<Rightarrow> heap \<times> model_instance \<Rightarrow> heap \<times> model_instance" where
  "fromObject c [] st = st"
| "fromObject c ((key, v) # obj) st = fromObject c obj (assign_prop c key v st)"

section \<open>Auxiliary notions\<close>

text \<open>
  A store \<open>h'\<close> extends \<open>h\<close> when every address of \<open>h\<close> is an address of \<open>h'\<close> and
  holds an object of the same kind there. A value is valid in a store when it is not a
  dangling reference.
\<close>

definition ext :: "heap \<Rightarrow> heap \<Rightarrow> bool" where
  "ext h h' = (length h \<le> length h' \<and> (\<forall>a<length h. kind (h' ! a) = kind (h ! a)))"

definition valid :: "heap \<Rightarrow> jsval \<Rightarrow> bool" where
  "valid h v = (case v of Ref a \<Rightarrow> a < length h | _ \<Rightarrow> True)"


text \<open>A primitive value: anything but a reference to an object, sequence or function.\<close>

definition is_primitive :: "jsval \<Rightarrow> bool" where
  "is_primitive v = (case v of Ref a \<Rightarrow> False | _ \<Rightarrow> True)"

text \<open>
  What \<open>toObject(false)\<close> returns for an instance without extras that holds primitive
  values: every registered property in registry order, with null where \<open>__data\<close> has no
  such key.
\<close>

definition plain_output :: "ctor \<Rightarrow> model_instance \<Rightarrow> (string \<times> jsval) list" where
  "plain_output c self =
     map (\<lambda>p. (p, if has_key (data self) p then lookup (data self) p else Null))
       (map fst (properties c))"


section \<open>Example models\<close>

text \<open>
  A model with a String property, an array-typed property and a Number property with a
  default. Its setters store the assigned value as it is; \<open>JSON.parse\<close> is taken to
  throw on every input, and no object has a \<open>toObject\<close> member.
\<close>

definition person :: ctor where
  "person = \<lparr>properties =
        [(''name'', \<lparr>ptype = Some (TNamed ''String''), pdefault = Literal Undefined\<rparr>),
         (''tags'', \<lparr>ptype = Some (TArray [TNamed ''String'']), pdefault = Literal Undefined\<rparr>),
         (''age'', \<lparr>ptype = Some (TNamed ''Number''), pdefault = Literal (Num 0)\<rparr>)],
      relations = [], settings_strict = Undefined,
      setter = (\<lambda>p v h. (v, [])), JSON_parse = (\<lambda>s n. None),
      call_toObject = (\<lambda>h v b. None)\<rparr>"

text \<open>A model with a property whose descriptor declares no type.\<close>

definition untyped :: ctor where
  "untyped = \<lparr>properties = [(''age'', \<lparr>ptype = None, pdefault = Literal (Num 0)\<rparr>)],
      relations = [], settings_strict = Undefined,
      setter = (\<lambda>p v h. (v, [])), JSON_parse = (\<lambda>s n. None),
      call_toObject = (\<lambda>h v b. None)\<rparr>"

text \<open>Options: none given; and \<open>{applySetters: false}\<close>.\<close>

definition no_options :: options where
  "no_options = \<lparr>applySetters = None, opt_strict = Undefined, opt_dataSource = Undefined\<rparr>"

definition raw_options :: options where
  "raw_options = \<lparr>applySetters = Some (Bool False), opt_strict = Undefined, opt_dataSource = Undefined\<rparr>"







text \<open>
  A model with a relation: a post belongs to an author through the foreign key
  \<open>authorId\<close>, which mirrors the author's \<open>id\<close>. The store \<open>authors\<close> holds an author at
  address 0.
\<close>

definition post :: ctor where
  "post = \<lparr>properties =
        [(''title'', \<lparr>ptype = Some (TNamed ''String''), pdefault = Literal Undefined\<rparr>),
         (''authorId'', \<lparr>ptype = Some (TNamed ''Number''), pdefault = Literal Undefined\<rparr>)],
      relations = [(''author'', \<lparr>keyFrom = ''authorId'', keyTo = ''id''\<rparr>)],
      settings_strict = Undefined,
      setter = (\<lambda>p v h. (v, [])), JSON_parse = (\<lambda>s n. None),
      call_toObject = (\<lambda>h v b. None)\<rparr>"


text \<open>
  Modelled from the spec: the setters are installed by the model builder, which is not
  part of \<open>lib/model.js\<close>. By the spec, "setters may perform additional per-type
  normalization", and \<open>fromObject\<close> assigns through them "so any setter-driven coercion
  applies". The setter of the Number property \<open>authorId\<close> below stores the number that a
  string of decimal digits denotes, and stores every other value as it is. The model
  \<open>numbered_post\<close> is \<open>post\<close> with this setter.
\<close>

fun digits_value :: "string \<Rightarrow> nat \<Rightarrow> nat option" where
  "digits_value [] acc = Some acc"
| "digits_value (ch # cs) acc =
     (if 48 \<le> (of_char ch :: nat) \<and> (of_char ch :: nat) \<le> 57
      then digits_value cs (10 * acc + ((of_char ch :: nat) - 48)) else None)"

definition normalising_setter :: "string \<Rightarrow> jsval \<Rightarrow> heap \<Rightarrow> jsval \<times> obj list" where
  "normalising_setter p v h =
     (if p = ''authorId'' then
        (case v of
           Str s \<Rightarrow> (if s = [] then (v, [])
                     else (case digits_value s 0 of Some n \<Rightarrow> (Num (int n), []) | None \<Rightarrow> (v, [])))
         | _ \<Rightarrow> (v, []))
      else (v, []))"

definition numbered_post :: ctor where
  "numbered_post = post\<lparr>setter := normalising_setter\<rparr>"

text \<open>
  A store with a function at address 0, and the options \<open>{strict: 'throw'}\<close> and
  \<open>{strict: false}\<close>.
\<close>

definition funcs :: heap where
  "funcs = [\<lparr>kind = KFunc ''function () {}'', members = []\<rparr>]"

definition throw_options :: options where
  "throw_options = \<lparr>applySetters = None, opt_strict = Str ''throw'', opt_dataSource = Undefined\<rparr>"

definition loose_options :: options where
  "loose_options = \<lparr>applySetters = None, opt_strict = Bool False, opt_dataSource = Undefined\<rparr>"

text \<open>
  The instance that \<open>new Post({title: 'T', authorId: 3})\<close> makes in the empty store, and
  the one that \<open>new Post()\<close> makes.
\<close>

definition post_T :: model_instance where
  "post_T = \<lparr>own = [], data = [(''title'', Str ''T''), (''authorId'', Num 3)],
              dataWas = [(''title'', Str ''T''), (''authorId'', Num 3)],
              cachedRelations = Ref 0, dataSource = Undefined, strictMode = Undefined\<rparr>"

definition post_fresh :: model_instance where
  "post_fresh = \<lparr>own = [], data = [(''title'', Undefined), (''authorId'', Undefined)],
              dataWas = [(''title'', Undefined), (''authorId'', Undefined)],
              cachedRelations = Ref 0, dataSource = Undefined, strictMode = Undefined\<rparr>"

section \<open>Verified properties\<close>

subsection \<open>The type query\<close>

text \<open>
  C9, as stated, fails. For a property whose type is given as an array literal the
  result is undefined, not the name of a type tag; and for a name that is not part of the
  definition but is inherited from \<open>Object.prototype\<close>, such as \<open>toString\<close>, the result
  is not null: the missing-type error is thrown.
\<close>

theorem getPropertyType_counterexample:
  "getPropertyType person ''tags'' = Inr Undefined \<and>
   find_key (properties person) ''tags'' =
     Some \<lparr>ptype = Some (TArray [TNamed ''String'']), pdefault = Literal Undefined\<rparr> \<and>
   getPropertyType person ''toString'' = Inl (MissingTypeError ''toString'') \<and>
   find_key (properties person) ''toString'' = None"
  by (simp add: getPropertyType_def person_def Object_prototype_names_def)

text \<open>
  C9, amended. For a name that is not inherited from \<open>Object.prototype\<close>,
  \<open>getPropertyType(name)\<close> returns null when the property is not part of the definition;
  when the property exists and declares a type, it returns the name of the type's
  constructor, and undefined for a type given as an array literal; and it throws exactly
  when the property exists and declares no type, the error then being the missing-type
  error for that property.
\<close>

theorem getPropertyType_spec:
  assumes "propName \<notin> set Object_prototype_names"
  shows
  "(find_key (properties c) propName = None \<longrightarrow> getPropertyType c propName = Inr Null) \<and>
   (\<forall>prop n. find_key (properties c) propName = Some prop \<and> ptype prop = Some (TNamed n)
       \<longrightarrow> getPropertyType c propName = Inr (Str n)) \<and>
   (\<forall>prop ts. find_key (properties c) propName = Some prop \<and> ptype prop = Some (TArray ts)
       \<longrightarrow> getPropertyType c propName = Inr Undefined) \<and>
   ((\<exists>e. getPropertyType c propName = Inl e)
       \<longleftrightarrow> (\<exists>prop. find_key (properties c) propName = Some prop \<and> ptype prop = None)) \<and>
   (\<forall>e. getPropertyType c propName = Inl e \<longrightarrow> e = MissingTypeError propName)"
  using assms by (auto simp: getPropertyType_def split: option.splits)

theorem getPropertyType_spec_witness:
  "getPropertyType person ''email'' = Inr Null \<and>
   getPropertyType person ''name'' = Inr (Str ''String'') \<and>
   getPropertyType person ''tags'' = Inr Undefined \<and>
   (\<exists>e. getPropertyType untyped ''age'' = Inl e)"
proof -
  have n: "''email'' \<notin> set Object_prototype_names" "''name'' \<notin> set Object_prototype_names"
    "''tags'' \<notin> set Object_prototype_names" "''age'' \<notin> set Object_prototype_names"
    by (simp_all add: Object_prototype_names_def)
  have a: "find_key (properties person) ''email'' = None"
    by (simp add: person_def)
  have b: "find_key (properties person) ''name'' =
             Some \<lparr>ptype = Some (TNamed ''String''), pdefault = Literal Undefined\<rparr>"
    by (simp add: person_def)
  have b': "find_key (properties person) ''tags'' =
             Some \<lparr>ptype = Some (TArray [TNamed ''String'']), pdefault = Literal Undefined\<rparr>"
    by (simp add: person_def)
  have d: "find_key (properties untyped) ''age'' = Some \<lparr>ptype = None, pdefault = Literal (Num 0)\<rparr>"
    by (simp add: untyped_def)
  from getPropertyType_spec [OF n(1), of person] a
  have 1: "getPropertyType person ''email'' = Inr Null" by blast
  from getPropertyType_spec [OF n(2), of person] b
  have 2: "getPropertyType person ''name'' = Inr (Str ''String'')" by fastforce
  from getPropertyType_spec [OF n(3), of person] b'
  have 3: "getPropertyType person ''tags'' = Inr Undefined" by fastforce
  from getPropertyType_spec [OF n(4), of untyped] d
  have 4: "\<exists>e. getPropertyType untyped ''age'' = Inl e" by fastforce
  from 1 2 3 4 show ?thesis by blast
qed

subsection \<open>Key/value lists and the store\<close>

lemma lookup_put: "lookup (put xs k v) k' = (if k' = k then v else lookup xs k')"
  by (induction xs) auto

lemma has_key_put: "has_key (put xs k v) k' = (k' = k \<or> has_key xs k')"
  by (induction xs) (auto split: if_splits)

lemma has_key_set: "has_key xs k = (k \<in> fst ` set xs)"
  by (induction xs) auto

lemma find_key_None: "(find_key xs k = None) = (\<not> has_key xs k)"
  by (induction xs) (auto split: if_splits)

lemma find_key_Some_has_key: "find_key xs k = Some d \<Longrightarrow> has_key xs k"
  by (induction xs) (auto split: if_splits)

lemma ext_refl: "ext h h"
  by (simp add: ext_def)

lemma ext_trans: "ext h1 h2 \<Longrightarrow> ext h2 h3 \<Longrightarrow> ext h1 h3"
  by (auto simp: ext_def)

lemma ext_append: "ext h (h @ objs)"
  by (simp add: ext_def nth_append)

lemma ext_set_member: "ext h (set_member h v k x)"
  by (auto simp: ext_def set_member_def nth_list_update split: jsval.splits)


lemma ext_length: "ext h h' \<Longrightarrow> length h \<le> length h'"
  by (simp add: ext_def)

lemma typeof_ext: "ext h h' \<Longrightarrow> valid h v \<Longrightarrow> typeof h' v = typeof h v"
  by (auto simp: ext_def valid_def typeof_def deref_def split: jsval.splits)


lemma valid_ext: "ext h h' \<Longrightarrow> valid h v \<Longrightarrow> valid h' v"
  by (auto simp: ext_def valid_def split: jsval.splits)


subsection \<open>The coercion pass\<close>



lemma parse_value_ext: "ext (fst st) (fst (parse_value c q st))"
  by (cases st) (auto simp: parse_value_def Let_def ext_refl ext_append split: option.splits)

lemma parse_value_frame:
  "own (snd (parse_value c q st)) = own (snd st) \<and>
   dataWas (snd (parse_value c q st)) = dataWas (snd st) \<and>
   strictMode (snd (parse_value c q st)) = strictMode (snd st) \<and>
   cachedRelations (snd (parse_value c q st)) = cachedRelations (snd st)"
  by (cases st) (auto simp: parse_value_def Let_def split: option.splits)




lemma wrap_list_ext: "ext (fst st) (fst (wrap_list q t st))"
  by (cases st) (auto simp: wrap_list_def alloc_def ext_refl ext_append)

lemma wrap_list_frame:
  "own (snd (wrap_list q t st)) = own (snd st) \<and>
   dataWas (snd (wrap_list q t st)) = dataWas (snd st) \<and>
   strictMode (snd (wrap_list q t st)) = strictMode (snd st) \<and>
   cachedRelations (snd (wrap_list q t st)) = cachedRelations (snd st)"
  by (cases st) (auto simp: wrap_list_def alloc_def)

lemma coerce_property_ext:
  "coerce_property c q st = Inr st' \<Longrightarrow> ext (fst st) (fst st')"
  by (auto simp: coerce_property_def Let_def ext_refl
           intro: ext_trans [OF parse_value_ext wrap_list_ext] parse_value_ext
           split: option.splits if_splits)

lemma coerce_property_frame:
  "coerce_property c q st = Inr st' \<Longrightarrow>
   own (snd st') = own (snd st) \<and> dataWas (snd st') = dataWas (snd st) \<and>
   strictMode (snd st') = strictMode (snd st) \<and>
   cachedRelations (snd st') = cachedRelations (snd st)"
  by (auto simp: coerce_property_def Let_def parse_value_frame wrap_list_frame
           split: option.splits if_splits)







lemma initProperties_Inr:
  assumes "initProperties c h raw opts = Inr st"
  shows "\<exists>st1. init_keys c (resolve_strict c opts) raw (new_instance c h raw opts) = Inr st1 \<and>
     coerce_properties c (map fst (properties c))
       (fill_defaults c (map fst (properties c))
          (unknowns_phase c raw opts (setters_phase c raw opts st1))) = Inr st"
proof (cases "init_keys c (resolve_strict c opts) raw (new_instance c h raw opts)")
  case (Inl e)
  with assms show ?thesis by (simp add: initProperties_def)
next
  case (Inr st1)
  with assms show ?thesis by (intro exI [of _ st1]) (simp add: initProperties_def)
qed

subsection \<open>Array-typed properties\<close>




subsection \<open>The first loop\<close>

lemma init_key_frame:
  assumes "init_key c s kv st = Inr st'"
  shows "ext (fst st) (fst st') \<and> own (snd st') = own (snd st) \<and>
         strictMode (snd st') = strictMode (snd st) \<and>
         cachedRelations (snd st') = cachedRelations (snd st) \<and>
         dataSource (snd st') = dataSource (snd st)"
  using assms
  by (cases kv; cases st)
     (auto simp: init_key_def ext_refl ext_set_member split: if_splits option.splits sum.splits)

lemma init_keys_frame:
  "init_keys c s raw st = Inr st' \<Longrightarrow>
   ext (fst st) (fst st') \<and> own (snd st') = own (snd st) \<and>
   strictMode (snd st') = strictMode (snd st) \<and>
   cachedRelations (snd st') = cachedRelations (snd st) \<and>
   dataSource (snd st') = dataSource (snd st)"
proof (induction raw arbitrary: st)
  case Nil
  then show ?case by (simp add: ext_refl)
next
  case (Cons kv raw)
  from Cons.prems obtain st1 where 1: "init_key c s kv st = Inr st1"
    and 2: "init_keys c s raw st1 = Inr st'"
    by (auto split: sum.splits)
  from init_key_frame [OF 1] Cons.IH [OF 2] show ?case
    by (auto intro: ext_trans)
qed

text \<open>A key that neither is \<open>p\<close> nor names a relation whose foreign key is \<open>p\<close>.\<close>

lemma init_key_data_other:
  assumes "init_key c s (i, v) st = Inr st'" and "i \<noteq> p"
    and "\<And>r. find_key (relations c) i = Some r \<Longrightarrow> keyFrom r \<noteq> p"
  shows "lookup (data (snd st')) p = lookup (data (snd st)) p"
  using assms
  by (cases st)
     (auto simp: init_key_def lookup_put split: if_splits option.splits sum.splits)


lemma init_keys_data_other:
  "init_keys c s raw st = Inr st' \<Longrightarrow> p \<notin> fst ` set raw \<Longrightarrow>
   (\<And>i r. i \<in> fst ` set raw \<Longrightarrow> find_key (relations c) i = Some r \<Longrightarrow> keyFrom r \<noteq> p) \<Longrightarrow>
   lookup (data (snd st')) p = lookup (data (snd st)) p"
proof (induction raw arbitrary: st)
  case Nil
  then show ?case by simp
next
  case (Cons kv raw)
  obtain i v where kv: "kv = (i, v)" by (cases kv)
  from Cons.prems(1) obtain st1 where 1: "init_key c s kv st = Inr st1"
    and 2: "init_keys c s raw st1 = Inr st'"
    by (auto split: sum.splits)
  from Cons.prems(2) kv have ip: "i \<noteq> p" and rest: "p \<notin> fst ` set raw" by auto
  have "lookup (data (snd st1)) p = lookup (data (snd st)) p"
    using 1 ip Cons.prems(3) [of i] unfolding kv
    by (intro init_key_data_other) auto
  moreover have "lookup (data (snd st')) p = lookup (data (snd st1)) p"
    using 2 rest Cons.prems(3) by (intro Cons.IH) auto
  ultimately show ?case by simp
qed




subsection \<open>Assignments through the instance\<close>

lemma assign_prop_frame:
  "ext (fst st) (fst (assign_prop c name v st)) \<and>
   dataWas (snd (assign_prop c name v st)) = dataWas (snd st)"
  by (cases st) (auto simp: assign_prop_def ext_refl ext_append split: prod.splits)

lemma assign_prop_data_other:
  "name \<noteq> p \<Longrightarrow> lookup (data (snd (assign_prop c name v st))) p = lookup (data (snd st)) p"
  by (cases st) (auto simp: assign_prop_def lookup_put split: prod.splits)

lemma assign_prop_unregistered:
  "\<not> has_key (properties c) name \<Longrightarrow> data (snd (assign_prop c name v st)) = data (snd st)"
  by (cases st) (auto simp: assign_prop_def)


lemma assign_prop_own_keys:
  "has_key (own (snd (assign_prop c name v st))) k \<Longrightarrow>
   has_key (own (snd st)) k \<or> (k = name \<and> \<not> has_key (properties c) k)"
  by (cases st) (auto simp: assign_prop_def has_key_put split: prod.splits if_splits)



lemma apply_setter_data_other:
  "fst kv \<noteq> p \<Longrightarrow> lookup (data (snd (apply_setter c kv st))) p = lookup (data (snd st)) p"
  by (cases kv) (simp add: apply_setter_def assign_prop_data_other)


lemma apply_setter_own_keys:
  "has_key (own (snd (apply_setter c kv st))) k \<Longrightarrow>
   has_key (own (snd st)) k \<or> \<not> has_key (properties c) k"
  by (cases kv) (auto simp: apply_setter_def dest: assign_prop_own_keys split: if_splits)

lemma apply_setters_own_keys:
  "has_key (own (snd (apply_setters c raw st))) k \<Longrightarrow>
   has_key (own (snd st)) k \<or> \<not> has_key (properties c) k"
proof (induction raw arbitrary: st)
  case Nil
  then show ?case by simp
next
  case (Cons kv raw)
  from Cons.prems have "has_key (own (snd (apply_setters c raw (apply_setter c kv st)))) k"
    by simp
  from Cons.IH [OF this] apply_setter_own_keys [of c kv st k] show ?case by blast
qed

lemma set_unknown_frame:
  "ext (fst st) (fst (set_unknown c kv st)) \<and>
   dataWas (snd (set_unknown c kv st)) = dataWas (snd st) \<and>
   data (snd (set_unknown c kv st)) = data (snd st)"
  by (cases kv) (simp add: set_unknown_def assign_prop_frame assign_prop_unregistered ext_refl)





subsection \<open>Defaults and the baseline\<close>

lemma fill_default_frame:
  "ext (fst st) (fst (fill_default c q st)) \<and> own (snd (fill_default c q st)) = own (snd st) \<and>
   strictMode (snd (fill_default c q st)) = strictMode (snd st) \<and>
   cachedRelations (snd (fill_default c q st)) = cachedRelations (snd st)"
  by (cases st) (auto simp: fill_default_def ext_refl ext_append split: prod.splits)

lemma fill_default_other:
  "q \<noteq> p \<Longrightarrow>
   lookup (data (snd (fill_default c q st))) p = lookup (data (snd st)) p \<and>
   lookup (dataWas (snd (fill_default c q st))) p = lookup (dataWas (snd st)) p"
  by (cases st) (auto simp: fill_default_def lookup_put split: prod.splits)



lemma fill_default_undefined:
  "lookup (data (snd st)) p = Undefined \<Longrightarrow>
   lookup (data (snd (fill_default c p st))) p = fst (getDefault c p (fst st))"
  by (cases st) (auto simp: fill_default_def lookup_put strict_eq_def split: prod.splits)

lemma fill_defaults_frame:
  "ext (fst st) (fst (fill_defaults c ps st)) \<and> own (snd (fill_defaults c ps st)) = own (snd st) \<and>
   strictMode (snd (fill_defaults c ps st)) = strictMode (snd st) \<and>
   cachedRelations (snd (fill_defaults c ps st)) = cachedRelations (snd st)"
proof (induction ps arbitrary: st)
  case Nil
  then show ?case by (simp add: ext_refl)
next
  case (Cons q ps)
  from fill_default_frame [of st c q] Cons [of "fill_default c q st"] show ?case
    by (auto intro: ext_trans)
qed

lemma fill_defaults_other:
  "p \<notin> set ps \<Longrightarrow>
   lookup (data (snd (fill_defaults c ps st))) p = lookup (data (snd st)) p \<and>
   lookup (dataWas (snd (fill_defaults c ps st))) p = lookup (dataWas (snd st)) p"
proof (induction ps arbitrary: st)
  case Nil
  then show ?case by simp
next
  case (Cons q ps)
  then have "q \<noteq> p" and "p \<notin> set ps" by auto
  with Cons.IH [of "fill_default c q st"] fill_default_other [of q p c st]
  show ?case by simp
qed





subsection \<open>Change tracking\<close>

lemma coerce_properties_frame:
  "coerce_properties c ps st = Inr st' \<Longrightarrow>
   ext (fst st) (fst st') \<and> own (snd st') = own (snd st) \<and>
   dataWas (snd st') = dataWas (snd st) \<and> strictMode (snd st') = strictMode (snd st) \<and>
   cachedRelations (snd st') = cachedRelations (snd st)"
proof (induction ps arbitrary: st)
  case Nil
  then show ?case by (simp add: ext_refl)
next
  case (Cons q ps)
  from Cons.prems obtain st1 where 1: "coerce_property c q st = Inr st1"
    and 2: "coerce_properties c ps st1 = Inr st'"
    by (auto split: sum.splits)
  from coerce_property_frame [OF 1] coerce_property_ext [OF 1] Cons.IH [OF 2] show ?case
    by (auto intro: ext_trans)
qed










subsection \<open>Plain sequences supplied for array-typed properties\<close>

lemma new_instance_frame:
  "ext h (fst (new_instance c h raw opts)) \<and> own (snd (new_instance c h raw opts)) = [] \<and>
   data (snd (new_instance c h raw opts)) = [] \<and> dataWas (snd (new_instance c h raw opts)) = [] \<and>
   strictMode (snd (new_instance c h raw opts)) = resolve_strict c opts"
  by (simp add: new_instance_def alloc_def ext_append)










subsection \<open>Defaults of properties that are not supplied\<close>

lemma fill_defaults_default:
  "distinct ps \<Longrightarrow> p \<in> set ps \<Longrightarrow> lookup (data (snd st)) p = Undefined \<Longrightarrow>
   \<exists>h0. ext (fst st) h0 \<and>
     lookup (data (snd (fill_defaults c ps st))) p = fst (getDefault c p h0)"
proof (induction ps arbitrary: st)
  case Nil
  then show ?case by simp
next
  case (Cons q ps)
  show ?case
  proof (cases "q = p")
    case True
    with Cons.prems(1) have "p \<notin> set ps" by simp
    then have "lookup (data (snd (fill_defaults c ps (fill_default c p st)))) p =
               lookup (data (snd (fill_default c p st))) p"
      by (simp add: fill_defaults_other)
    with fill_default_undefined [OF Cons.prems(3)] True
    have "lookup (data (snd (fill_defaults c (q # ps) st))) p = fst (getDefault c p (fst st))"
      by simp
    with ext_refl show ?thesis by blast
  next
    case False
    with Cons.prems have d: "distinct ps" and m: "p \<in> set ps"
      and u: "lookup (data (snd (fill_default c q st))) p = Undefined"
      by (simp_all add: fill_default_other)
    from Cons.IH [OF d m u] obtain h0 where
      "ext (fst (fill_default c q st)) h0" and
      "lookup (data (snd (fill_defaults c ps (fill_default c q st)))) p = fst (getDefault c p h0)"
      by blast
    moreover have "ext (fst st) (fst (fill_default c q st))"
      by (simp add: fill_default_frame)
    ultimately show ?thesis by (auto intro: ext_trans)
  qed
qed








subsection \<open>Relation ingestion\<close>
















lemma has_key_names: "has_key xs k = (k \<in> set (map fst xs))"
  by (induction xs) auto





subsection \<open>Function values and unknown keys\<close>

text \<open>
  C2. The code at the failing input: the only key, \<open>name\<close>, is a registered property,
  its value is a function, and strict mode is \<open>'throw'\<close>. The guard of the first branch
  rejects the function, the key is not a relation, and the last branch throws
  \<open>Unknown property: name\<close>.
\<close>

theorem registered_function_key_throws:
  "ModelBaseClass person funcs [(''name'', Ref 0)] throw_options =
     Inl (UnknownPropertyError ''name'')"
  by code_simp

text \<open>
  C4. The code at the failing input: with strict mode false, a key whose value is a
  function is stored into \<open>data\<close> and \<open>dataWas\<close> by the last branch of the first loop
  (the later two loops do skip it: it is given to no setter and is not mirrored as an
  own property); and with strict mode \<open>'throw'\<close> a function under an unregistered key
  makes construction throw.
\<close>

theorem function_key_is_stored:
  "ModelBaseClass person funcs [(''name'', Ref 0)] loose_options =
     Inr (funcs @ [\<lparr>kind = KPlain, members = []\<rparr>,
                   \<lparr>kind = KList Undefined (TArray [TNamed ''String'']), members = []\<rparr>],
          \<lparr>own = [],
             data = [(''name'', Ref 0), (''tags'', Ref 2), (''age'', Num 0)],
             dataWas = [(''name'', Ref 0), (''tags'', Undefined), (''age'', Num 0)],
             cachedRelations = Ref 1, dataSource = Undefined, strictMode = Bool False\<rparr>) \<and>
   typeof funcs (Ref 0) = TyFunction \<and>
   ModelBaseClass person funcs [(''helper'', Ref 0)] throw_options =
     Inl (UnknownPropertyError ''helper'')"
  by code_simp

subsection \<open>Serialization\<close>

lemma primitive_facts:
  assumes "is_primitive v"
  shows "typeof h v \<noteq> TyFunction" and "\<not> is_List h v" and "convert c h v flag = (v, [])"
    and "valid h v"
  using assms
  by (auto simp: is_primitive_def typeof_def is_List_def convert_def valid_def split: jsval.splits)

lemma put_append: "\<not> has_key xs k \<Longrightarrow> put xs k v = xs @ [(k, v)]"
  by (induction xs) auto

lemma has_key_append: "has_key (xs @ ys) k = (has_key xs k \<or> has_key ys k)"
  by (induction xs) auto

lemma lookup_append:
  "lookup (xs @ ys) k = (if has_key xs k then lookup xs k else lookup ys k)"
  by (induction xs) auto

lemma schema_prop_keys:
  assumes "schema_prop c self sl p st = Inr st'" and "has_key (snd st') k"
  shows "has_key (snd st) k \<or> k = p"
  using assms
  by (cases st)
     (auto simp: schema_prop_def has_key_put split: if_splits option.splits prod.splits)

lemma schema_props_keys:
  "schema_props c self sl ps st = Inr st' \<Longrightarrow> has_key (snd st') k \<Longrightarrow>
   has_key (snd st) k \<or> k \<in> set ps"
proof (induction ps arbitrary: st)
  case Nil
  then show ?case by simp
next
  case (Cons p ps)
  from Cons.prems(1) obtain st1 where 1: "schema_prop c self sl p st = Inr st1"
    and 2: "schema_props c self sl ps st1 = Inr st'"
    by (auto split: sum.splits)
  from Cons.IH [OF 2 Cons.prems(2)] schema_prop_keys [OF 1, of k] show ?case by auto
qed

lemma own_prop_keep:
  "has_key (snd st) k \<Longrightarrow>
   has_key (snd (own_prop c self p st)) k \<and> lookup (snd (own_prop c self p st)) k = lookup (snd st) k"
  by (cases st) (auto simp: own_prop_def has_key_put lookup_put split: prod.splits)

lemma own_props_keep:
  "has_key (snd st) k \<Longrightarrow>
   has_key (snd (own_props c self ps st)) k \<and>
   lookup (snd (own_props c self ps st)) k = lookup (snd st) k"
proof (induction ps arbitrary: st)
  case Nil
  then show ?case by simp
next
  case (Cons p ps)
  from own_prop_keep [OF Cons.prems, of c self p] Cons.IH [of "own_prop c self p st"]
  show ?case by simp
qed

lemma own_prop_sets:
  "\<not> has_key (snd st) k \<Longrightarrow> is_primitive (read_prop c self k) \<Longrightarrow>
   has_key (snd (own_prop c self k st)) k \<and>
   lookup (snd (own_prop c self k st)) k = read_prop c self k"
  by (cases st) (simp add: own_prop_def primitive_facts has_key_put lookup_put)

lemma own_prop_other:
  "p \<noteq> k \<Longrightarrow> has_key (snd (own_prop c self p st)) k = has_key (snd st) k"
  by (cases st) (auto simp: own_prop_def has_key_put split: prod.splits)

lemma own_props_sets:
  "k \<in> set ps \<Longrightarrow> \<not> has_key (snd st) k \<Longrightarrow> is_primitive (read_prop c self k) \<Longrightarrow>
   has_key (snd (own_props c self ps st)) k \<and>
   lookup (snd (own_props c self ps st)) k = read_prop c self k"
proof (induction ps arbitrary: st)
  case Nil
  then show ?case by simp
next
  case (Cons p ps)
  show ?case
  proof (cases "p = k")
    case True
    from own_prop_sets [OF Cons.prems(2,3)]
      own_props_keep [of "own_prop c self k st" k c self ps] True
    show ?thesis by simp
  next
    case False
    with Cons.prems(1) have "k \<in> set ps" by simp
    moreover from False Cons.prems(2) have "\<not> has_key (snd (own_prop c self p st)) k"
      by (simp add: own_prop_other)
    ultimately show ?thesis using Cons.IH [of "own_prop c self p st"] Cons.prems(3) by simp
  qed
qed

lemma data_prop_keep:
  "has_key (snd st) k \<Longrightarrow>
   has_key (snd (data_prop c self p st)) k \<and> lookup (snd (data_prop c self p st)) k = lookup (snd st) k"
  by (cases st) (auto simp: data_prop_def has_key_put lookup_put split: prod.splits)

lemma data_props_keep:
  "has_key (snd st) k \<Longrightarrow>
   has_key (snd (data_props c self ps st)) k \<and>
   lookup (snd (data_props c self ps st)) k = lookup (snd st) k"
proof (induction ps arbitrary: st)
  case Nil
  then show ?case by simp
next
  case (Cons p ps)
  from data_prop_keep [OF Cons.prems, of c self p] Cons.IH [of "data_prop c self p st"]
  show ?case by simp
qed

lemma toObject_strict_false:
  "strictMode self = Bool False \<Longrightarrow>
   toObject c (h, self) (Bool True) = toObject c (h, self) (Bool False)"
  by (simp add: toObject_def strict_eq_def)

lemma toObject_own_property:
  assumes "toObject c (h, self) flag = Inr (h', out)"
    and "strictMode self = Bool False \<or> \<not> truthy flag \<and> flag \<noteq> Undefined"
    and "has_key (own self) k" and "is_primitive (lookup (own self) k)"
    and "\<not> has_key (properties c) k"
  shows "has_key out k \<and> lookup out k = lookup (own self) k"
proof -
  let ?names = "map fst (properties c)"
  from assms(2) have sl: "strict_eq (strictMode self) (Bool False) \<or>
      \<not> truthy (if strict_eq flag Undefined then Bool True else flag)"
    by (auto simp: strict_eq_def)
  with assms(1) obtain st1 where 1: "schema_props c self True ?names (h, []) = Inr st1"
    and 2: "(h', out) = data_props c self (map fst (data self))
                          (own_props c self (map fst (own self)) st1)"
    by (auto simp: toObject_def Let_def split: sum.splits)
  from assms(5) have "k \<notin> set ?names" by (simp add: has_key_names)
  with schema_props_keys [OF 1, of k] have n1: "\<not> has_key (snd st1) k" by auto
  from assms(3) have rp: "read_prop c self k = lookup (own self) k"
    by (simp add: read_prop_def)
  from assms(3) have "k \<in> set (map fst (own self))" by (simp add: has_key_names)
  from own_props_sets [OF this n1, of c self] rp assms(4)
  have "has_key (snd (own_props c self (map fst (own self)) st1)) k \<and>
        lookup (snd (own_props c self (map fst (own self)) st1)) k = lookup (own self) k"
    by simp
  with data_props_keep [of "own_props c self (map fst (own self)) st1" k c self
      "map fst (data self)"] 2 [symmetric]
  show ?thesis by simp
qed

subsection \<open>Unregistered keys under strict mode false\<close>

lemma assign_prop_own_other:
  "name \<noteq> k \<Longrightarrow>
   lookup (own (snd (assign_prop c name v st))) k = lookup (own (snd st)) k \<and>
   has_key (own (snd (assign_prop c name v st))) k = has_key (own (snd st)) k"
  by (cases st) (auto simp: assign_prop_def lookup_put has_key_put split: prod.splits)

lemma assign_prop_own_set:
  "\<not> has_key (properties c) k \<Longrightarrow> k \<noteq> ''__cachedRelations'' \<Longrightarrow> k \<noteq> ''__strict'' \<Longrightarrow>
   k \<noteq> ''__dataSource'' \<Longrightarrow>
   lookup (own (snd (assign_prop c k v st))) k = v \<and> has_key (own (snd (assign_prop c k v st))) k"
  by (cases st) (auto simp: assign_prop_def lookup_put has_key_put)

lemma assign_prop_strict:
  "name \<noteq> ''__strict'' \<Longrightarrow> strictMode (snd (assign_prop c name v st)) = strictMode (snd st)"
  by (cases st) (auto simp: assign_prop_def split: prod.splits)

lemma apply_setters_strict:
  "''__strict'' \<notin> fst ` set raw \<Longrightarrow>
   strictMode (snd (apply_setters c raw st)) = strictMode (snd st)"
proof (induction raw arbitrary: st)
  case Nil
  then show ?case by simp
next
  case (Cons kv raw)
  then have n: "fst kv \<noteq> ''__strict''" and r: "''__strict'' \<notin> fst ` set raw" by auto
  have "strictMode (snd (apply_setter c kv st)) = strictMode (snd st)"
    using n by (cases kv) (simp add: apply_setter_def assign_prop_strict)
  with Cons.IH [OF r, of "apply_setter c kv st"] show ?case by simp
qed

lemma set_unknowns_strict:
  "''__strict'' \<notin> fst ` set raw \<Longrightarrow>
   strictMode (snd (set_unknowns c raw st)) = strictMode (snd st)"
proof (induction raw arbitrary: st)
  case Nil
  then show ?case by simp
next
  case (Cons kv raw)
  then have n: "fst kv \<noteq> ''__strict''" and r: "''__strict'' \<notin> fst ` set raw" by auto
  have "strictMode (snd (set_unknown c kv st)) = strictMode (snd st)"
    using n by (cases kv) (simp add: set_unknown_def assign_prop_strict)
  with Cons.IH [OF r, of "set_unknown c kv st"] show ?case by simp
qed

lemma apply_setter_data_unregistered:
  "\<not> has_key (properties c) k \<Longrightarrow>
   lookup (data (snd (apply_setter c kv st))) k = lookup (data (snd st)) k"
proof (cases "fst kv = k")
  case True
  assume "\<not> has_key (properties c) k"
  with True show ?thesis
    by (cases kv) (simp add: apply_setter_def assign_prop_unregistered)
next
  case False
  then show ?thesis by (simp add: apply_setter_data_other)
qed

lemma apply_setters_data_unregistered:
  "\<not> has_key (properties c) k \<Longrightarrow>
   lookup (data (snd (apply_setters c raw st))) k = lookup (data (snd st)) k"
  by (induction raw arbitrary: st) (simp_all add: apply_setter_data_unregistered)

lemma set_unknowns_own_other:
  "k \<notin> fst ` set raw \<Longrightarrow>
   lookup (own (snd (set_unknowns c raw st))) k = lookup (own (snd st)) k \<and>
   has_key (own (snd (set_unknowns c raw st))) k = has_key (own (snd st)) k"
proof (induction raw arbitrary: st)
  case Nil
  then show ?case by simp
next
  case (Cons kv raw)
  then have n: "fst kv \<noteq> k" and r: "k \<notin> fst ` set raw" by auto
  have "lookup (own (snd (set_unknown c kv st))) k = lookup (own (snd st)) k \<and>
        has_key (own (snd (set_unknown c kv st))) k = has_key (own (snd st)) k"
    using n by (cases kv) (simp add: set_unknown_def assign_prop_own_other)
  with Cons.IH [OF r, of "set_unknown c kv st"] show ?case by simp
qed

lemma set_unknowns_own:
  "distinct (map fst raw) \<Longrightarrow> (k, v) \<in> set raw \<Longrightarrow> is_primitive v \<Longrightarrow>
   \<not> has_key (properties c) k \<Longrightarrow> k \<noteq> ''__cachedRelations'' \<Longrightarrow> k \<noteq> ''__strict'' \<Longrightarrow>
   k \<noteq> ''__dataSource'' \<Longrightarrow> lookup (data (snd st)) k = v \<Longrightarrow>
   lookup (own (snd (set_unknowns c raw st))) k = v \<and> has_key (own (snd (set_unknowns c raw st))) k"
proof (induction raw arbitrary: st)
  case Nil
  then show ?case by simp
next
  case (Cons kv raw)
  obtain i x where kv: "kv = (i, x)" by (cases kv)
  show ?case
  proof (cases "i = k")
    case True
    with Cons.prems(1,2) kv have xv: "x = v" and rest: "k \<notin> fst ` set raw"
      by (auto simp: image_iff)
    have "js_or v v = v" by (simp add: js_or_def)
    with True xv kv Cons.prems(3-8)
    have "lookup (own (snd (set_unknown c kv st))) k = v \<and> has_key (own (snd (set_unknown c kv st))) k"
      by (simp add: set_unknown_def primitive_facts assign_prop_own_set)
    with set_unknowns_own_other [OF rest, of c "set_unknown c kv st"] show ?thesis by simp
  next
    case False
    with Cons.prems(2) kv have mem: "(k, v) \<in> set raw" by auto
    from Cons.prems(1) have d: "distinct (map fst raw)" by simp
    have "lookup (data (snd (set_unknown c kv st))) k = v"
      using Cons.prems(8) by (simp add: set_unknown_frame)
    from Cons.IH [OF d mem Cons.prems(3-7) this] show ?thesis by simp
  qed
qed

lemma init_key_data_freeform:
  assumes "init_key c s (k, v) st = Inr st'" and "\<not> has_key (properties c) k"
    and "find_key (relations c) k = None" and "strict_eq s (Bool False)"
  shows "lookup (data (snd st')) k = v"
  using assms by (cases st) (auto simp: init_key_def lookup_put clone_def)

lemma init_keys_data_freeform:
  "init_keys c s raw st = Inr st' \<Longrightarrow> distinct (map fst raw) \<Longrightarrow> (k, v) \<in> set raw \<Longrightarrow>
   \<not> has_key (properties c) k \<Longrightarrow> find_key (relations c) k = None \<Longrightarrow>
   strict_eq s (Bool False) \<Longrightarrow>
   (\<And>i r. i \<in> fst ` set raw \<Longrightarrow> find_key (relations c) i = Some r \<Longrightarrow> keyFrom r \<noteq> k) \<Longrightarrow>
   lookup (data (snd st')) k = v"
proof (induction raw arbitrary: st)
  case Nil
  then show ?case by simp
next
  case (Cons kv raw)
  obtain i x where kv: "kv = (i, x)" by (cases kv)
  from Cons.prems(1) obtain st1 where 1: "init_key c s kv st = Inr st1"
    and 2: "init_keys c s raw st1 = Inr st'"
    by (auto split: sum.splits)
  show ?case
  proof (cases "i = k")
    case True
    with Cons.prems(2,3) kv have xv: "x = v" and rest: "k \<notin> fst ` set raw"
      by (auto simp: image_iff)
    from 1 kv True xv Cons.prems(4,5,6) have "lookup (data (snd st1)) k = v"
      by (auto dest: init_key_data_freeform)
    moreover have "lookup (data (snd st')) k = lookup (data (snd st1)) k"
      using 2 rest Cons.prems(7) by (intro init_keys_data_other) auto
    ultimately show ?thesis by simp
  next
    case False
    with Cons.prems(3) kv have mem: "(k, v) \<in> set raw" by auto
    from Cons.prems(2) have d: "distinct (map fst raw)" by simp
    from 2 d mem Cons.prems(4,5,6,7) show ?thesis by (intro Cons.IH) auto
  qed
qed

lemma post_extra:
  "ModelBaseClass post [] [(''extra'', Num 1)] loose_options =
     Inr ([\<lparr>kind = KPlain, members = []\<rparr>],
          \<lparr>own = [(''extra'', Num 1)],
             data = [(''extra'', Num 1), (''title'', Undefined), (''authorId'', Undefined)],
             dataWas = [(''extra'', Num 1), (''title'', Undefined), (''authorId'', Undefined)],
             cachedRelations = Ref 0, dataSource = Undefined, strictMode = Bool False\<rparr>)"
  by code_simp

lemma post_extra_toObject:
  "toObject post
     ([\<lparr>kind = KPlain, members = []\<rparr>],
      \<lparr>own = [(''extra'', Num 1)],
         data = [(''extra'', Num 1), (''title'', Undefined), (''authorId'', Undefined)],
         dataWas = [(''extra'', Num 1), (''title'', Undefined), (''authorId'', Undefined)],
         cachedRelations = Ref 0, dataSource = Undefined, strictMode = Bool False\<rparr>)
     (Bool True) =
   Inr ([\<lparr>kind = KPlain, members = []\<rparr>],
        [(''title'', Undefined), (''authorId'', Undefined), (''extra'', Num 1)])"
  by code_simp

text \<open>
  C1. The code at the failing input: on the instance constructed with strict mode false
  from \<open>{extra: 1}\<close>, \<open>toObject(true)\<close> returns a structure that contains \<open>extra: 1\<close>.
  The documentation of \<open>toObject\<close> says that with \<open>onlySchema\<close> true only the properties
  defined in the schema are returned; the code computes
  \<open>schemaLess = (strict === false) || !onlySchema\<close> and so ignores \<open>onlySchema\<close> on such
  an instance.
\<close>

theorem toObject_true_includes_extra:
  "ModelBaseClass post [] [(''extra'', Num 1)] loose_options =
     Inr ([\<lparr>kind = KPlain, members = []\<rparr>],
          \<lparr>own = [(''extra'', Num 1)],
             data = [(''extra'', Num 1), (''title'', Undefined), (''authorId'', Undefined)],
             dataWas = [(''extra'', Num 1), (''title'', Undefined), (''authorId'', Undefined)],
             cachedRelations = Ref 0, dataSource = Undefined, strictMode = Bool False\<rparr>) \<and>
   toObject post
     ([\<lparr>kind = KPlain, members = []\<rparr>],
      \<lparr>own = [(''extra'', Num 1)],
         data = [(''extra'', Num 1), (''title'', Undefined), (''authorId'', Undefined)],
         dataWas = [(''extra'', Num 1), (''title'', Undefined), (''authorId'', Undefined)],
         cachedRelations = Ref 0, dataSource = Undefined, strictMode = Bool False\<rparr>)
     (Bool True) =
   Inr ([\<lparr>kind = KPlain, members = []\<rparr>],
        [(''title'', Undefined), (''authorId'', Undefined), (''extra'', Num 1)]) \<and>
   has_key [(''title'', Undefined), (''authorId'', Undefined), (''extra'', Num 1)] ''extra''"
proof -
  have "has_key [(''title'', Undefined), (''authorId'', Undefined), (''extra'', Num 1)] ''extra''"
    by simp
  with post_extra post_extra_toObject show ?thesis by blast
qed

text \<open>
  The same holds in general. For an instance constructed with strict mode false whose
  raw input contained an unregistered key with a primitive value, \<open>toObject(true)\<close>
  returns the same as \<open>toObject(false)\<close>, and whenever it returns, the result contains that
  key with its value. This is for a key that is not a relation name, the foreign key of a
  supplied relation or the name of a hidden slot, and an input without the key
  \<open>__strict\<close>.
\<close>

lemma toObject_strict_false_includes_extra:
  assumes init: "ModelBaseClass c h raw opts = Inr (h', self)"
    and strict: "resolve_strict c opts = Bool False"
    and raw: "wf_raw raw" "(k, v) \<in> set raw" "is_primitive v" "\<not> has_key raw ''__strict''"
    and key: "\<not> has_key (properties c) k" "find_key (relations c) k = None"
      "k \<noteq> ''__cachedRelations''" "k \<noteq> ''__strict''" "k \<noteq> ''__dataSource''"
    and fk: "\<And>i r. i \<in> fst ` set raw \<Longrightarrow> find_key (relations c) i = Some r \<Longrightarrow> keyFrom r \<noteq> k"
  shows "toObject c (h', self) (Bool True) = toObject c (h', self) (Bool False) \<and>
         (\<forall>h2 out. toObject c (h', self) (Bool True) = Inr (h2, out) \<longrightarrow>
            has_key out k \<and> lookup out k = v)"
proof -
  let ?names = "map fst (properties c)"
  let ?opts = "if applySetters opts = None then opts\<lparr>applySetters := Some (Bool True)\<rparr> else opts"
  let ?st0 = "new_instance c h raw ?opts"
  from init have init': "initProperties c h raw ?opts = Inr (h', self)"
    by (simp add: ModelBaseClass_def)
  from strict have s: "resolve_strict c ?opts = Bool False"
    by (auto simp: resolve_strict_def split: if_splits)
  from initProperties_Inr [OF init'] obtain st1 where
    1: "init_keys c (resolve_strict c ?opts) raw ?st0 = Inr st1" and
    2: "coerce_properties c ?names
          (fill_defaults c ?names (unknowns_phase c raw ?opts (setters_phase c raw ?opts st1)))
        = Inr (h', self)"
    by blast
  let ?st2 = "setters_phase c raw ?opts st1"
  let ?st3 = "unknowns_phase c raw ?opts ?st2"
  let ?st4 = "fill_defaults c ?names ?st3"
  from raw(1) have dist: "distinct (map fst raw)" by (simp add: wf_raw_def)
  from raw(4) have ns: "''__strict'' \<notin> fst ` set raw" by (simp add: has_key_set)
  have se: "strict_eq (resolve_strict c ?opts) (Bool False)"
    using s by (simp add: strict_eq_def)
  have u3: "?st3 = set_unknowns c raw ?st2"
    using se by (simp add: unknowns_phase_def)
  \<comment> \<open>the strict mode of the instance\<close>
  have "strictMode (snd st1) = Bool False"
    using init_keys_frame [OF 1] s by (simp add: new_instance_frame)
  then have "strictMode (snd ?st2) = Bool False"
    using apply_setters_strict [OF ns] by (simp add: setters_phase_def)
  then have "strictMode (snd ?st3) = Bool False"
    using set_unknowns_strict [OF ns] by (simp add: u3)
  then have sm: "strictMode self = Bool False"
    using coerce_properties_frame [OF 2] by (simp add: fill_defaults_frame)
  \<comment> \<open>the own property\<close>
  have "lookup (data (snd st1)) k = v"
    using 1 dist raw(2) key(1,2) se fk by (rule init_keys_data_freeform)
  then have "lookup (data (snd ?st2)) k = v"
    using key(1) by (simp add: setters_phase_def apply_setters_data_unregistered)
  from set_unknowns_own [OF dist raw(2,3) key(1,3,4,5) this]
  have "lookup (own (snd ?st3)) k = v \<and> has_key (own (snd ?st3)) k"
    by (simp add: u3)
  then have own: "lookup (own self) k = v" "has_key (own self) k"
    using coerce_properties_frame [OF 2] by (simp_all add: fill_defaults_frame)
  have "has_key out k \<and> lookup out k = v"
    if "toObject c (h', self) (Bool True) = Inr (h2, out)" for h2 out
    using toObject_own_property [OF that _ own(2) _ key(1)] sm own(1) raw(3) by simp
  with toObject_strict_false [OF sm] show ?thesis by blast
qed

lemma toObject_strict_false_includes_extra_example:
  "\<exists>h' self h2 out.
     ModelBaseClass post [] [(''extra'', Num 1)] loose_options = Inr (h', self) \<and>
     toObject post (h', self) (Bool True) = Inr (h2, out) \<and>
     toObject post (h', self) (Bool False) = Inr (h2, out) \<and>
     has_key out ''extra'' \<and> lookup out ''extra'' = Num 1"
proof -
  let ?h = "[\<lparr>kind = KPlain, members = []\<rparr>]"
  let ?self = "\<lparr>own = [(''extra'', Num 1)],
             data = [(''extra'', Num 1), (''title'', Undefined), (''authorId'', Undefined)],
             dataWas = [(''extra'', Num 1), (''title'', Undefined), (''authorId'', Undefined)],
             cachedRelations = Ref 0, dataSource = Undefined, strictMode = Bool False\<rparr>"
  have "toObject post (?h, ?self) (Bool True) = toObject post (?h, ?self) (Bool False) \<and>
        (\<forall>h2 out. toObject post (?h, ?self) (Bool True) = Inr (h2, out) \<longrightarrow>
           has_key out ''extra'' \<and> lookup out ''extra'' = Num 1)"
    by (rule toObject_strict_false_includes_extra [OF post_extra])
       (auto simp: resolve_strict_def loose_options_def strict_eq_def wf_raw_def
          is_primitive_def post_def)
  with post_extra post_extra_toObject show ?thesis by fastforce
qed

subsection \<open>The round trip through \<open>toObject(false)\<close> and \<open>fromObject\<close>\<close>

lemma schema_prop_plain:
  assumes "own self = []" and "has_key (properties c) p"
    and "is_primitive (lookup (data self) p)" and "\<not> has_key out p"
  shows "schema_prop c self sl p (h, out) =
           Inr (h, out @ [(p, if has_key (data self) p then lookup (data self) p else Null)])"
proof -
  from assms(1,2) have rp: "read_prop c self p = lookup (data self) p"
    by (simp add: read_prop_def)
  with assms(3,4) show ?thesis
    by (simp add: schema_prop_def primitive_facts put_append)
qed

lemma schema_props_plain:
  "own self = [] \<Longrightarrow> distinct ps \<Longrightarrow>
   (\<And>p. p \<in> set ps \<Longrightarrow> has_key (properties c) p \<and> is_primitive (lookup (data self) p)) \<Longrightarrow>
   (\<And>p. p \<in> set ps \<Longrightarrow> \<not> has_key out p) \<Longrightarrow>
   schema_props c self sl ps (h, out) =
     Inr (h, out @ map (\<lambda>p. (p, if has_key (data self) p then lookup (data self) p else Null)) ps)"
proof (induction ps arbitrary: out)
  case Nil
  then show ?case by simp
next
  case (Cons q ps)
  let ?e = "(q, if has_key (data self) q then lookup (data self) q else Null)"
  have 1: "schema_prop c self sl q (h, out) = Inr (h, out @ [?e])"
    using Cons.prems(1) Cons.prems(3) [of q] Cons.prems(4) [of q]
    by (intro schema_prop_plain) simp_all
  have "schema_props c self sl ps (h, out @ [?e]) =
          Inr (h, (out @ [?e]) @
            map (\<lambda>p. (p, if has_key (data self) p then lookup (data self) p else Null)) ps)"
  proof (rule Cons.IH [OF Cons.prems(1)])
    show "distinct ps" using Cons.prems(2) by simp
  next
    fix p assume "p \<in> set ps"
    then show "has_key (properties c) p \<and> is_primitive (lookup (data self) p)"
      using Cons.prems(3) [of p] by simp
  next
    fix p assume p: "p \<in> set ps"
    with Cons.prems(2) have "p \<noteq> q" by auto
    with Cons.prems(4) [of p] p show "\<not> has_key (out @ [?e]) p"
      by (simp add: has_key_append)
  qed
  with 1 show ?case by simp
qed

lemma data_props_noop:
  "(\<And>p. p \<in> set ps \<Longrightarrow> has_key (snd st) p) \<Longrightarrow> data_props c self ps st = st"
proof (induction ps)
  case Nil
  then show ?case by simp
next
  case (Cons q ps)
  have "data_prop c self q st = st"
    using Cons.prems [of q] by (cases st) (simp add: data_prop_def)
  with Cons show ?case by simp
qed

lemma plain_output_keys: "has_key (plain_output c self) k = has_key (properties c) k"
  by (simp add: plain_output_def has_key_set image_image)

lemma lookup_map_key:
  "k \<in> set ps \<Longrightarrow> lookup (map (\<lambda>p. (p, f p)) ps) k = f k"
  by (induction ps) auto

lemma plain_output_lookup:
  "has_key (properties c) k \<Longrightarrow>
   lookup (plain_output c self) k = (if has_key (data self) k then lookup (data self) k else Null)"
  unfolding plain_output_def by (rule lookup_map_key) (simp add: has_key_names)

lemma toObject_plain:
  assumes "own self = []" and "distinct (map fst (properties c))"
    and "\<And>p. has_key (properties c) p \<Longrightarrow> is_primitive (lookup (data self) p)"
    and "\<And>k. has_key (data self) k \<Longrightarrow> has_key (properties c) k"
  shows "toObject c (h, self) (Bool False) = Inr (h, plain_output c self)"
proof -
  let ?names = "map fst (properties c)"
  have "schema_props c self True ?names (h, []) =
          Inr (h, [] @ map (\<lambda>p. (p, if has_key (data self) p then lookup (data self) p else Null))
                         ?names)"
    using assms(1,2)
  proof (rule schema_props_plain)
    fix p assume "p \<in> set ?names"
    then have "has_key (properties c) p" by (simp add: has_key_names)
    with assms(3) show "has_key (properties c) p \<and> is_primitive (lookup (data self) p)" by simp
  qed simp
  then have 1: "schema_props c self True ?names (h, []) = Inr (h, plain_output c self)"
    by (simp add: plain_output_def)
  have 2: "data_props c self (map fst (data self)) (h, plain_output c self) =
             (h, plain_output c self)"
  proof (rule data_props_noop)
    fix p assume "p \<in> set (map fst (data self))"
    then have "has_key (data self) p" by (simp add: has_key_names)
    with assms(4) show "has_key (snd (h, plain_output c self)) p"
      by (simp add: plain_output_keys)
  qed
  from 1 2 assms(1) show ?thesis
    by (simp add: toObject_def strict_eq_def truthy_def)
qed

lemma fromObject_plain:
  "own (snd st) = [] \<Longrightarrow>
   (\<And>p v h. (p, v) \<in> set obj \<Longrightarrow> has_key (properties c) p \<and> fst (setter c p v h) = v) \<Longrightarrow>
   distinct (map fst obj) \<Longrightarrow>
   own (snd (fromObject c obj st)) = [] \<and>
   (\<forall>p. lookup (data (snd (fromObject c obj st))) p =
          (if has_key obj p then lookup obj p else lookup (data (snd st)) p)) \<and>
   (\<forall>p. has_key (data (snd (fromObject c obj st))) p =
          (has_key obj p \<or> has_key (data (snd st)) p))"
proof (induction obj arbitrary: st)
  case Nil
  then show ?case by simp
next
  case (Cons kv obj)
  obtain key v where kv: "kv = (key, v)" by (cases kv)
  obtain h self where st: "st = (h, self)" by (cases st)
  let ?st1 = "assign_prop c key v st"
  from Cons.prems(2) [of key v] kv have reg: "has_key (properties c) key"
    and set: "\<And>h. fst (setter c key v h) = v"
    by simp_all
  from Cons.prems(1) reg st set [of h]
  have a: "own (snd ?st1) = []" and b: "data (snd ?st1) = put (data self) key v"
    by (auto simp: assign_prop_def split: prod.splits)
  from Cons.prems(3) kv have nk: "\<not> has_key obj key" and d: "distinct (map fst obj)"
    by (simp_all add: has_key_set)
  have "own (snd (fromObject c obj ?st1)) = [] \<and>
        (\<forall>p. lookup (data (snd (fromObject c obj ?st1))) p =
               (if has_key obj p then lookup obj p else lookup (data (snd ?st1)) p)) \<and>
        (\<forall>p. has_key (data (snd (fromObject c obj ?st1))) p =
               (has_key obj p \<or> has_key (data (snd ?st1)) p))"
    using a _ d
  proof (rule Cons.IH)
    fix p x h0 assume "(p, x) \<in> set obj"
    then show "has_key (properties c) p \<and> fst (setter c p x h0) = x"
      using Cons.prems(2) [of p x h0] by simp
  qed
  with nk b kv st show ?case
    by (auto simp: lookup_put has_key_put)
qed

lemma fill_default_keys:
  "has_key (data (snd (fill_default c q st))) k \<longrightarrow> has_key (data (snd st)) k \<or> k = q"
  by (cases st) (simp add: fill_default_def has_key_put split: prod.splits)

lemma fill_defaults_keys:
  "has_key (data (snd (fill_defaults c ps st))) k \<Longrightarrow> has_key (data (snd st)) k \<or> k \<in> set ps"
proof (induction ps arbitrary: st)
  case Nil
  then show ?case by simp
next
  case (Cons q ps)
  from Cons.prems have "has_key (data (snd (fill_defaults c ps (fill_default c q st)))) k"
    by simp
  from Cons.IH [OF this] fill_default_keys [of c q st k] show ?case by auto
qed

lemma parse_value_keys:
  "has_key (data (snd (parse_value c q st))) k \<longrightarrow> has_key (data (snd st)) k \<or> k = q"
  by (cases st) (simp add: parse_value_def Let_def has_key_put split: option.splits)

lemma wrap_list_keys:
  "has_key (data (snd (wrap_list q t st))) k \<longrightarrow> has_key (data (snd st)) k \<or> k = q"
  by (cases st) (simp add: wrap_list_def alloc_def has_key_put)

lemma coerce_property_keys:
  assumes "coerce_property c q st = Inr st'" and "has_key (data (snd st')) k"
  shows "has_key (data (snd st)) k \<or> k = q"
proof -
  from assms(1) consider "st' = st" | "st' = parse_value c q st"
    | t where "st' = wrap_list q t (parse_value c q st)"
    by (auto simp: coerce_property_def Let_def split: option.splits if_splits)
  then show ?thesis
  proof cases
    case 1
    with assms(2) show ?thesis by simp
  next
    case 2
    with assms(2) parse_value_keys [of c q st k] show ?thesis by simp
  next
    case 3
    with assms(2) wrap_list_keys [of q t "parse_value c q st" k] parse_value_keys [of c q st k]
    show ?thesis by blast
  qed
qed

lemma coerce_properties_keys:
  "coerce_properties c ps st = Inr st' \<Longrightarrow> has_key (data (snd st')) k \<Longrightarrow>
   has_key (data (snd st)) k \<or> k \<in> set ps"
proof (induction ps arbitrary: st)
  case Nil
  then show ?case by simp
next
  case (Cons q ps)
  from Cons.prems(1) obtain st1 where 1: "coerce_property c q st = Inr st1"
    and 2: "coerce_properties c ps st1 = Inr st'"
    by (auto split: sum.splits)
  from Cons.IH [OF 2 Cons.prems(2)] coerce_property_keys [OF 1, of k] show ?case by auto
qed

lemma fresh_instance:
  assumes "ModelBaseClass c h [] opts = Inr (hf, fresh)"
  shows "own fresh = [] \<and> (\<forall>k. has_key (data fresh) k \<longrightarrow> has_key (properties c) k)"
proof -
  let ?names = "map fst (properties c)"
  let ?opts = "if applySetters opts = None then opts\<lparr>applySetters := Some (Bool True)\<rparr> else opts"
  let ?st0 = "new_instance c h [] ?opts"
  from assms have "initProperties c h [] ?opts = Inr (hf, fresh)"
    by (simp add: ModelBaseClass_def)
  moreover have "setters_phase c [] ?opts st = st" "unknowns_phase c [] ?opts st = st" for st
    by (simp_all add: setters_phase_def unknowns_phase_def)
  ultimately have 2: "coerce_properties c ?names (fill_defaults c ?names ?st0) = Inr (hf, fresh)"
    by (simp add: initProperties_def)
  have "own fresh = []"
    using coerce_properties_frame [OF 2] by (simp add: fill_defaults_frame new_instance_frame)
  moreover have "has_key (properties c) k" if "has_key (data fresh) k" for k
  proof -
    from coerce_properties_keys [OF 2, of k] that
    have "has_key (data (snd (fill_defaults c ?names ?st0))) k \<or> k \<in> set ?names" by simp
    with fill_defaults_keys [of c ?names ?st0 k] have "k \<in> set ?names"
      by (auto simp: new_instance_frame)
    then show ?thesis by (simp add: has_key_names)
  qed
  ultimately show ?thesis by blast
qed

lemma post_T_constructed:
  "ModelBaseClass post [] [(''title'', Str ''T''), (''authorId'', Num 3)] no_options =
     Inr ([\<lparr>kind = KPlain, members = []\<rparr>], post_T)"
  by code_simp

lemma post_fresh_constructed:
  "ModelBaseClass post [] [] no_options = Inr ([\<lparr>kind = KPlain, members = []\<rparr>], post_fresh)"
  by code_simp

lemma numbered_post_3:
  "ModelBaseClass numbered_post [] [(''authorId'', Str ''3'')] raw_options =
     Inr ([\<lparr>kind = KPlain, members = []\<rparr>],
          \<lparr>own = [], data = [(''authorId'', Str ''3''), (''title'', Undefined)],
             dataWas = [(''authorId'', Str ''3''), (''title'', Undefined)],
             cachedRelations = Ref 0, dataSource = Undefined, strictMode = Undefined\<rparr>)"
  by code_simp

lemma numbered_post_3_toObject:
  "toObject numbered_post
     ([\<lparr>kind = KPlain, members = []\<rparr>],
      \<lparr>own = [], data = [(''authorId'', Str ''3''), (''title'', Undefined)],
         dataWas = [(''authorId'', Str ''3''), (''title'', Undefined)],
         cachedRelations = Ref 0, dataSource = Undefined, strictMode = Undefined\<rparr>)
     (Bool False) =
   Inr ([\<lparr>kind = KPlain, members = []\<rparr>], [(''title'', Undefined), (''authorId'', Str ''3'')])"
  by code_simp

lemma numbered_post_fresh:
  "ModelBaseClass numbered_post [] [] no_options =
     Inr ([\<lparr>kind = KPlain, members = []\<rparr>], post_fresh)"
  by code_simp

lemma numbered_post_back:
  "toObject numbered_post
     (fromObject numbered_post [(''title'', Undefined), (''authorId'', Str ''3'')]
        ([\<lparr>kind = KPlain, members = []\<rparr>], post_fresh))
     (Bool False) =
   Inr ([\<lparr>kind = KPlain, members = []\<rparr>], [(''title'', Undefined), (''authorId'', Num 3)])"
  by code_simp

text \<open>
  C8, as stated, fails when a setter normalises. The schema has only primitive-typed
  properties and the instance, made with \<open>{applySetters: false}\<close> from
  \<open>{authorId: '3'}\<close>, has no extras; \<open>toObject(false)\<close> returns \<open>authorId: '3'\<close>, but after
  \<open>fromObject\<close> of that on a fresh instance the setter has stored the number, and
  \<open>toObject(false)\<close> returns \<open>authorId: 3\<close>.
\<close>

theorem round_trip_normalising_setter_counterexample:
  "ModelBaseClass numbered_post [] [(''authorId'', Str ''3'')] raw_options =
     Inr ([\<lparr>kind = KPlain, members = []\<rparr>],
          \<lparr>own = [], data = [(''authorId'', Str ''3''), (''title'', Undefined)],
             dataWas = [(''authorId'', Str ''3''), (''title'', Undefined)],
             cachedRelations = Ref 0, dataSource = Undefined, strictMode = Undefined\<rparr>) \<and>
   toObject numbered_post
     ([\<lparr>kind = KPlain, members = []\<rparr>],
      \<lparr>own = [], data = [(''authorId'', Str ''3''), (''title'', Undefined)],
         dataWas = [(''authorId'', Str ''3''), (''title'', Undefined)],
         cachedRelations = Ref 0, dataSource = Undefined, strictMode = Undefined\<rparr>)
     (Bool False) =
   Inr ([\<lparr>kind = KPlain, members = []\<rparr>], [(''title'', Undefined), (''authorId'', Str ''3'')]) \<and>
   ModelBaseClass numbered_post [] [] no_options =
     Inr ([\<lparr>kind = KPlain, members = []\<rparr>], post_fresh) \<and>
   toObject numbered_post
     (fromObject numbered_post [(''title'', Undefined), (''authorId'', Str ''3'')]
        ([\<lparr>kind = KPlain, members = []\<rparr>], post_fresh))
     (Bool False) =
   Inr ([\<lparr>kind = KPlain, members = []\<rparr>], [(''title'', Undefined), (''authorId'', Num 3)]) \<and>
   [(''title'', Undefined), (''authorId'', Str ''3'')] \<noteq>
   [(''title'', Undefined), (''authorId'', Num 3)]"
proof -
  have "[(''title'', Undefined), (''authorId'', Str ''3'')] \<noteq>
        [(''title'', Undefined), (''authorId'', Num 3)]"
    by simp
  with numbered_post_3 numbered_post_3_toObject numbered_post_fresh numbered_post_back
  show ?thesis by blast
qed

text \<open>
  C8, amended. Let the instance have no own properties and no keys of \<open>__data\<close> outside
  the registry (no schema-less extras), let its registered properties hold primitive
  values, and let the names of the registry be distinct. Then \<open>toObject(false)\<close> returns
  a structure \<open>out\<close>, and after \<open>fromObject(out)\<close> on an instance freshly constructed from
  empty input, \<open>toObject(false)\<close> of that instance returns \<open>out\<close> again, provided that the
  setter of every registered property stores the serialized value of that property as it
  is.
\<close>

theorem fromObject_toObject_round_trip:
  assumes src: "own self = []" "\<And>k. has_key (data self) k \<Longrightarrow> has_key (properties c) k"
      "\<And>p. has_key (properties c) p \<Longrightarrow> is_primitive (lookup (data self) p)"
    and names: "distinct (map fst (properties c))"
    and fresh: "ModelBaseClass c h0 [] opts0 = Inr (hf, fresh)"
    and setters: "\<And>p v h. (p, v) \<in> set (plain_output c self) \<Longrightarrow> fst (setter c p v h) = v"
  shows "\<exists>out h2. toObject c (h1, self) (Bool False) = Inr (h1, out) \<and>
           toObject c (fromObject c out (hf, fresh)) (Bool False) = Inr (h2, out)"
proof -
  let ?out = "plain_output c self"
  let ?names = "map fst (properties c)"
  have 1: "toObject c (h1, self) (Bool False) = Inr (h1, ?out)"
    using src(1) names src(3,2) by (rule toObject_plain)
  obtain h2 self2 where st2: "fromObject c ?out (hf, fresh) = (h2, self2)"
    by (cases "fromObject c ?out (hf, fresh)")
  have keys_out: "map fst ?out = ?names"
    by (simp add: plain_output_def comp_def)
  have "own (snd (fromObject c ?out (hf, fresh))) = [] \<and>
        (\<forall>p. lookup (data (snd (fromObject c ?out (hf, fresh)))) p =
               (if has_key ?out p then lookup ?out p else lookup (data (snd (hf, fresh))) p)) \<and>
        (\<forall>p. has_key (data (snd (fromObject c ?out (hf, fresh)))) p =
               (has_key ?out p \<or> has_key (data (snd (hf, fresh))) p))"
  proof (rule fromObject_plain)
    show "own (snd (hf, fresh)) = []" using fresh_instance [OF fresh] by simp
  next
    fix p v h assume m: "(p, v) \<in> set ?out"
    then have "p \<in> fst ` set ?out" by force
    then have "has_key ?out p" by (simp add: has_key_set)
    then have "has_key (properties c) p" by (simp add: plain_output_keys)
    with setters [OF m] show "has_key (properties c) p \<and> fst (setter c p v h) = v" by simp
  next
    show "distinct (map fst ?out)" using names by (simp add: keys_out)
  qed
  with st2 have o2: "own self2 = []"
    and l2: "\<And>p. lookup (data self2) p =
               (if has_key ?out p then lookup ?out p else lookup (data fresh) p)"
    and k2: "\<And>p. has_key (data self2) p = (has_key ?out p \<or> has_key (data fresh) p)"
    by simp_all
  have reg: "lookup (data self2) p = (if has_key (data self) p then lookup (data self) p else Null)"
      "has_key (data self2) p"
    if "has_key (properties c) p" for p
    using that l2 [of p] k2 [of p] by (simp_all add: plain_output_keys plain_output_lookup)
  have "toObject c (h2, self2) (Bool False) = Inr (h2, plain_output c self2)"
    using o2 names
  proof (rule toObject_plain)
    fix p assume p: "has_key (properties c) p"
    with src(3) [OF p] reg(1) [OF p] show "is_primitive (lookup (data self2) p)"
      by (simp add: is_primitive_def)
  next
    fix k assume "has_key (data self2) k"
    with k2 [of k] fresh_instance [OF fresh] show "has_key (properties c) k"
      by (auto simp: plain_output_keys)
  qed
  moreover have "plain_output c self2 = ?out"
    unfolding plain_output_def
  proof (rule map_cong [OF refl])
    fix p assume "p \<in> set ?names"
    then have "has_key (properties c) p" by (simp add: has_key_names)
    from reg [OF this]
    show "(p, if has_key (data self2) p then lookup (data self2) p else Null) =
          (p, if has_key (data self) p then lookup (data self) p else Null)"
      by simp
  qed
  ultimately show ?thesis using 1 st2 by auto
qed

theorem fromObject_toObject_round_trip_witness:
  "ModelBaseClass post [] [(''title'', Str ''T''), (''authorId'', Num 3)] no_options =
     Inr ([\<lparr>kind = KPlain, members = []\<rparr>], post_T) \<and>
   ModelBaseClass post [] [] no_options = Inr ([\<lparr>kind = KPlain, members = []\<rparr>], post_fresh) \<and>
   (\<exists>out h2. toObject post ([\<lparr>kind = KPlain, members = []\<rparr>], post_T) (Bool False) =
                Inr ([\<lparr>kind = KPlain, members = []\<rparr>], out) \<and>
      toObject post (fromObject post out ([\<lparr>kind = KPlain, members = []\<rparr>], post_fresh))
        (Bool False) = Inr (h2, out))"
proof -
  have d: "distinct (map fst (properties post))"
    by (simp add: post_def)
  have "\<exists>out h2. toObject post ([\<lparr>kind = KPlain, members = []\<rparr>], post_T) (Bool False) =
                Inr ([\<lparr>kind = KPlain, members = []\<rparr>], out) \<and>
      toObject post (fromObject post out ([\<lparr>kind = KPlain, members = []\<rparr>], post_fresh))
        (Bool False) = Inr (h2, out)"
    by (rule fromObject_toObject_round_trip [OF _ _ _ d post_fresh_constructed])
       (auto simp: post_T_def post_def is_primitive_def)
  with post_T_constructed post_fresh_constructed show ?thesis by blast
qed

subsection \<open>The unknown-property error on inputs without function values\<close>

text \<open>
  Apart from function values, the unknown-property error is raised as intended: when no
  value of the input is a function, no value under a relation name is null or undefined
  (reading its referenced key would be a TypeError), and no key of the input is a name
  inherited from \<open>Object.prototype\<close> (for which the tests \<open>i in properties\<close> and
  \<open>i in ctor.relations\<close> hold although the name is no own key), construction fails with
  an unknown-property error exactly when strict mode is \<open>'throw'\<close> and some key is
  neither registered nor a relation name.
\<close>

lemma init_key_error:
  assumes "init_key c s (i, v) st = Inl e" and "typeof (fst st) v \<noteq> TyFunction"
    and "\<not> has_key (properties c) i \<Longrightarrow> has_key (relations c) i \<Longrightarrow> v \<noteq> Undefined \<and> v \<noteq> Null"
  shows "e = UnknownPropertyError i \<and> s = Str ''throw'' \<and>
         \<not> has_key (properties c) i \<and> \<not> has_key (relations c) i"
proof (cases st)
  case (Pair h self)
  show ?thesis
  proof (cases "find_key (relations c) i")
    case None
    then have "\<not> has_key (relations c) i" by (simp add: find_key_None)
    with assms(1,2) Pair None show ?thesis
      by (auto simp: init_key_def strict_eq_def split: if_splits)
  next
    case (Some r)
    then have rel: "has_key (relations c) i" by (rule find_key_Some_has_key)
    from assms(1,2) Pair Some have "\<not> has_key (properties c) i"
      by (auto simp: init_key_def split: if_splits)
    with assms(3) rel have "v \<noteq> Undefined \<and> v \<noteq> Null" by simp
    then have "\<exists>x. get_member h v (keyTo r) = Inr x"
      by (cases v) (auto simp: get_member_def split: option.splits)
    with assms(1,2) Pair Some show ?thesis
      by (auto simp: init_key_def split: if_splits)
  qed
qed

lemma init_key_throws:
  "\<not> has_key (properties c) i \<Longrightarrow> \<not> has_key (relations c) i \<Longrightarrow>
   init_key c (Str ''throw'') (i, v) st = Inl (UnknownPropertyError i)"
  by (cases st) (simp add: init_key_def find_key_None [symmetric] strict_eq_def)

lemma init_keys_error:
  "init_keys c s raw st = Inl e \<Longrightarrow>
   (\<And>k v. (k, v) \<in> set raw \<Longrightarrow> valid (fst st) v \<and> typeof (fst st) v \<noteq> TyFunction) \<Longrightarrow>
   (\<And>k v. (k, v) \<in> set raw \<Longrightarrow> \<not> has_key (properties c) k \<Longrightarrow> has_key (relations c) k \<Longrightarrow>
      v \<noteq> Undefined \<and> v \<noteq> Null) \<Longrightarrow>
   s = Str ''throw'' \<and>
   (\<exists>k\<in>fst ` set raw. e = UnknownPropertyError k \<and>
      \<not> has_key (properties c) k \<and> \<not> has_key (relations c) k)"
proof (induction raw arbitrary: st)
  case Nil
  then show ?case by simp
next
  case (Cons kv raw)
  obtain i v where kv: "kv = (i, v)" by (cases kv)
  show ?case
  proof (cases "init_key c s kv st")
    case (Inl e')
    with Cons.prems(1) have "e' = e" by simp
    with Inl kv have "init_key c s (i, v) st = Inl e" by simp
    from init_key_error [OF this] Cons.prems(2) [of i v] Cons.prems(3) [of i v] kv
    show ?thesis by auto
  next
    case (Inr st1)
    with Cons.prems(1) have 2: "init_keys c s raw st1 = Inl e" by simp
    have e: "ext (fst st) (fst st1)" using init_key_frame [OF Inr] by simp
    have "s = Str ''throw'' \<and>
          (\<exists>k\<in>fst ` set raw. e = UnknownPropertyError k \<and>
             \<not> has_key (properties c) k \<and> \<not> has_key (relations c) k)"
      using 2
    proof (rule Cons.IH)
      fix k x assume "(k, x) \<in> set raw"
      with Cons.prems(2) [of k x] typeof_ext [OF e, of x] valid_ext [OF e, of x]
      show "valid (fst st1) x \<and> typeof (fst st1) x \<noteq> TyFunction" by simp
    next
      fix k x assume "(k, x) \<in> set raw" "\<not> has_key (properties c) k" "has_key (relations c) k"
      with Cons.prems(3) [of k x] show "x \<noteq> Undefined \<and> x \<noteq> Null" by simp
    qed
    then show ?thesis by auto
  qed
qed

lemma init_keys_throws:
  "k \<in> fst ` set raw \<Longrightarrow> \<not> has_key (properties c) k \<Longrightarrow> \<not> has_key (relations c) k \<Longrightarrow>
   (\<And>k v. (k, v) \<in> set raw \<Longrightarrow> valid (fst st) v \<and> typeof (fst st) v \<noteq> TyFunction) \<Longrightarrow>
   (\<And>k v. (k, v) \<in> set raw \<Longrightarrow> \<not> has_key (properties c) k \<Longrightarrow> has_key (relations c) k \<Longrightarrow>
      v \<noteq> Undefined \<and> v \<noteq> Null) \<Longrightarrow>
   \<exists>k'. init_keys c (Str ''throw'') raw st = Inl (UnknownPropertyError k')"
proof (induction raw arbitrary: st)
  case Nil
  then show ?case by simp
next
  case (Cons kv raw)
  obtain i v where kv: "kv = (i, v)" by (cases kv)
  show ?case
  proof (cases "init_key c (Str ''throw'') kv st")
    case (Inl e)
    with kv have "init_key c (Str ''throw'') (i, v) st = Inl e" by simp
    from init_key_error [OF this] Cons.prems(4) [of i v] Cons.prems(5) [of i v] kv
    have "e = UnknownPropertyError i" by auto
    with Inl show ?thesis by auto
  next
    case (Inr st1)
    have "i \<noteq> k"
    proof
      assume "i = k"
      with Cons.prems(2,3) have "init_key c (Str ''throw'') (i, v) st = Inl (UnknownPropertyError i)"
        by (simp add: init_key_throws)
      with Inr kv show False by simp
    qed
    with Cons.prems(1) kv have mem: "k \<in> fst ` set raw" by auto
    have e: "ext (fst st) (fst st1)" using init_key_frame [OF Inr] by simp
    have "\<exists>k'. init_keys c (Str ''throw'') raw st1 = Inl (UnknownPropertyError k')"
      using mem Cons.prems(2,3)
    proof (rule Cons.IH)
      fix k x assume "(k, x) \<in> set raw"
      with Cons.prems(4) [of k x] typeof_ext [OF e, of x] valid_ext [OF e, of x]
      show "valid (fst st1) x \<and> typeof (fst st1) x \<noteq> TyFunction" by simp
    next
      fix k x assume "(k, x) \<in> set raw" "\<not> has_key (properties c) k" "has_key (relations c) k"
      with Cons.prems(5) [of k x] show "x \<noteq> Undefined \<and> x \<noteq> Null" by simp
    qed
    with Inr show ?thesis by simp
  qed
qed

lemma coerce_properties_error:
  "coerce_properties c ps st = Inl e \<Longrightarrow> e = TypeError"
proof (induction ps arbitrary: st)
  case Nil
  then show ?case by simp
next
  case (Cons q ps)
  show ?case
  proof (cases "coerce_property c q st")
    case (Inl e')
    then have "e' = TypeError"
      by (auto simp: coerce_property_def Let_def split: option.splits if_splits)
    with Inl Cons.prems show ?thesis by simp
  next
    case (Inr st1)
    with Cons show ?thesis by simp
  qed
qed

lemma unknown_property_error_iff:
  assumes "wf_raw raw" and "\<And>k. k \<in> fst ` set raw \<Longrightarrow> k \<notin> set Object_prototype_names"
    and nofun: "\<And>k v. (k, v) \<in> set raw \<Longrightarrow> valid h v \<and> typeof h v \<noteq> TyFunction"
    and rels: "\<And>k v. (k, v) \<in> set raw \<Longrightarrow> \<not> has_key (properties c) k \<Longrightarrow>
                 has_key (relations c) k \<Longrightarrow> v \<noteq> Undefined \<and> v \<noteq> Null"
  shows "(\<exists>k. ModelBaseClass c h raw opts = Inl (UnknownPropertyError k)) \<longleftrightarrow>
         (resolve_strict c opts = Str ''throw'' \<and>
          (\<exists>k\<in>fst ` set raw. \<not> has_key (properties c) k \<and> \<not> has_key (relations c) k))"
proof -
  let ?opts = "if applySetters opts = None then opts\<lparr>applySetters := Some (Bool True)\<rparr> else opts"
  let ?st0 = "new_instance c h raw ?opts"
  let ?s = "resolve_strict c ?opts"
  have s: "?s = resolve_strict c opts"
    by (simp add: resolve_strict_def)
  have e0: "ext h (fst ?st0)" by (simp add: new_instance_frame)
  have nofun0: "valid (fst ?st0) v \<and> typeof (fst ?st0) v \<noteq> TyFunction"
    if "(k, v) \<in> set raw" for k v
    using nofun [OF that] typeof_ext [OF e0, of v] valid_ext [OF e0, of v] by simp
  have init: "ModelBaseClass c h raw opts = Inl (UnknownPropertyError k) \<longleftrightarrow>
              init_keys c ?s raw ?st0 = Inl (UnknownPropertyError k)" for k
  proof (cases "init_keys c ?s raw ?st0")
    case (Inl e)
    then show ?thesis by (simp add: ModelBaseClass_def initProperties_def)
  next
    case (Inr st1)
    then show ?thesis
      by (auto simp: ModelBaseClass_def initProperties_def dest: coerce_properties_error)
  qed
  show ?thesis
  proof
    assume "\<exists>k. ModelBaseClass c h raw opts = Inl (UnknownPropertyError k)"
    then obtain k where "init_keys c ?s raw ?st0 = Inl (UnknownPropertyError k)"
      using init by blast
    then have "?s = Str ''throw'' \<and>
          (\<exists>k'\<in>fst ` set raw. UnknownPropertyError k = UnknownPropertyError k' \<and>
             \<not> has_key (properties c) k' \<and> \<not> has_key (relations c) k')"
    proof (rule init_keys_error)
      fix k v assume "(k, v) \<in> set raw"
      then show "valid (fst ?st0) v \<and> typeof (fst ?st0) v \<noteq> TyFunction" by (rule nofun0)
    next
      fix k v assume "(k, v) \<in> set raw" "\<not> has_key (properties c) k" "has_key (relations c) k"
      then show "v \<noteq> Undefined \<and> v \<noteq> Null" by (rule rels)
    qed
    with s show "resolve_strict c opts = Str ''throw'' \<and>
          (\<exists>k\<in>fst ` set raw. \<not> has_key (properties c) k \<and> \<not> has_key (relations c) k)"
      by auto
  next
    assume a: "resolve_strict c opts = Str ''throw'' \<and>
          (\<exists>k\<in>fst ` set raw. \<not> has_key (properties c) k \<and> \<not> has_key (relations c) k)"
    then obtain k where "k \<in> fst ` set raw" "\<not> has_key (properties c) k"
      "\<not> has_key (relations c) k" by blast
    then have "\<exists>k'. init_keys c (Str ''throw'') raw ?st0 = Inl (UnknownPropertyError k')"
    proof (rule init_keys_throws)
      fix k v assume "(k, v) \<in> set raw"
      then show "valid (fst ?st0) v \<and> typeof (fst ?st0) v \<noteq> TyFunction" by (rule nofun0)
    next
      fix k v assume "(k, v) \<in> set raw" "\<not> has_key (properties c) k" "has_key (relations c) k"
      then show "v \<noteq> Undefined \<and> v \<noteq> Null" by (rule rels)
    qed
    with a s obtain k' where "init_keys c ?s raw ?st0 = Inl (UnknownPropertyError k')"
      by auto
    with init show "\<exists>k. ModelBaseClass c h raw opts = Inl (UnknownPropertyError k)"
      by blast
  qed
qed

end
